theory Spec2Isabelle
  imports Complex_Main
begin

section \<open>The analog encoder reader (src/a_in.py)\<close>

text \<open>
  The script polls an analog input device, unwraps the voltage of every data channel
  into an accumulated voltage and prints the corresponding angle. The embedding follows
  \<^verbatim>\<open>main\<close> from the point where the channel arrays are created (line 103) to the
  exception handlers that end the function.

  The program is embedded twice. First, the whole of it in exact arithmetic: Python
  floats are \<^typ>\<open>real\<close>, there is no rounding, no infinity and no NaN, the literal
  \<^verbatim>\<open>0.9\<close> is the real number nine tenths and \<^verbatim>\<open>math.pi\<close> is \<^term>\<open>pi\<close>. This
  is the model for what is stated in exact arithmetic (sums of deltas, integer multiples
  of the reference) and for what does not depend on arithmetic at all (which channels
  are touched, which exceptions are caught). Second, the lines that compute (122 to
  138) with the float arithmetic as a parameter, for what the rounded comparisons and
  the formatting of floats decide: the branch an update takes and the text it prints.
  In both, a float division by zero raises \<^verbatim>\<open>ZeroDivisionError\<close>, as in Python.

  The device is the only source of input: an exception enters the model where a call
  of \<^verbatim>\<open>a_in\<close> raises it (a \<^verbatim>\<open>KeyboardInterrupt\<close> arriving while the call blocks
  included). The \<^verbatim>\<open>finally\<close> block of \<^verbatim>\<open>main\<close> only disconnects and releases the
  device handle; it changes neither the channel arrays nor the terminal and is left out.
\<close>

subsection \<open>Exceptions and outcomes\<close>

datatype exn =
    ValueError
  | NameError
  | SyntaxError
  | ZeroDivisionError
  | IndexError
  | KeyboardInterrupt
  | RuntimeError string
  | ULException

text \<open>
  One call of \<^verbatim>\<open>ai_device.a_in(channel, input_mode, ranges[range_index], AInFlag.DEFAULT)\<close>
  returns a voltage or raises. Input mode, range and flag are fixed for the whole run,
  so a reading depends on the channel only; \<open>frame\<close> is what the device answers during
  one pass (the initialisation pass or one iteration of the polling loop).
\<close>

type_synonym 'f gen_frame = "nat \<Rightarrow> exn + 'f"

type_synonym frame = "real gen_frame"

record 'f gen_state =
  data_vol_pre :: "'f list"
  data_vol_incr :: "'f list"
  stdout :: "string list"

type_synonym state = "real gen_state"

text \<open>
  \<open>stdout\<close> holds the lines written to the terminal after \<^verbatim>\<open>system('clear')\<close>,
  oldest first, without their newline characters.

  A block of statements either runs to its end (\<open>Ok\<close>) or raises (\<open>Raise\<close>); both carry
  the state reached, since lines printed before a raise stay on the terminal.
\<close>

datatype 'f gen_outcome = Ok "'f gen_state" | Raise exn "'f gen_state"

type_synonym outcome = "real gen_outcome"

fun state_of :: "'f gen_outcome \<Rightarrow> 'f gen_state" where
  "state_of (Ok st) = st"
| "state_of (Raise e st) = st"

subsection \<open>Printing\<close>

definition digit_char :: "nat \<Rightarrow> char" where
  "digit_char d = (''0123456789'' ! d)"

text \<open>\<^verbatim>\<open>str(n)\<close> for a non-negative integer.\<close>

fun str_nat :: "nat \<Rightarrow> string" where
  "str_nat n = (if n < 10 then [digit_char n] else str_nat (n div 10) @ [digit_char (n mod 10)])"

declare str_nat.simps [simp del]

text \<open>The \<open>k\<close> lowest decimal digits of \<open>n\<close>, with leading zeros.\<close>

fun digits_fixed :: "nat \<Rightarrow> nat \<Rightarrow> string" where
  "digits_fixed 0 n = []"
| "digits_fixed (Suc k) n = digits_fixed k (n div 10) @ [digit_char (n mod 10)]"

text \<open>Rounding to the nearest integer, ties to the even one, as Python's formatting does.\<close>

definition round_half_even :: "real \<Rightarrow> int" where
  "round_half_even y =
     (let f = \<lfloor>y\<rfloor> in
      if y - of_int f < 1 / 2 then f
      else if y - of_int f > 1 / 2 then f + 1
      else if even f then f else f + 1)"

text \<open>
  \<^verbatim>\<open>'{:.6f}'.format(x)\<close> for a real \<open>x\<close>: sign, integer part, a point and six
  decimals. A real zero has no sign, so the text \<open>-0.000000\<close> that Python prints for a
  negative zero is out of reach of this function; the second embedding takes the
  formatter as \<open>fmt_6f\<close>.
\<close>

definition format_6f :: "real \<Rightarrow> string" where
  "format_6f x =
     (let n = nat (round_half_even (\<bar>x\<bar> * 1000000)) in
      (if x < 0 then ''-'' else '''') @ str_nat (n div 1000000) @ ''.'' @
      digits_fixed 6 (n mod 1000000))"

text \<open>
  Line 137: \<^verbatim>\<open>print('Channel(', channel, ') Data: ', '{:.6f}'.format(data_rad), sep='')\<close>.
\<close>

definition channel_line :: "nat \<Rightarrow> real \<Rightarrow> string" where
  "channel_line channel data_rad =
     ''Channel('' @ str_nat channel @ '') Data: '' @ format_6f data_rad"

text \<open>
  Lines 115 to 118: \<^verbatim>\<open>reset_cursor()\<close> writes the escape sequence that moves the
  cursor home, without a newline; the two \<^verbatim>\<open>print\<close> calls each end their text with
  an extra newline. The device's description and identifier are parameters.
\<close>

definition reset_cursor :: string where
  "reset_cursor = [CHR 0x1B] @ ''[1;1H''"

definition header_lines :: "string \<Rightarrow> string \<Rightarrow> string list" where
  "header_lines dev_string unique_id =
     [reset_cursor @ ''Please enter CTRL + C to terminate the process'',
      '''',
      ''Active DAQ device: '' @ dev_string @ '' ('' @ unique_id @ '')'',
      '''']"

subsection \<open>Channel range\<close>

definition low_channel :: int where
  "low_channel = 0"

text \<open>
  Lines 36 and 83 to 84: \<^verbatim>\<open>high_channel\<close> starts at 7 and is lowered to the last
  channel the device has in the chosen input mode.
\<close>

definition high_channel :: "int \<Rightarrow> int" where
  "high_channel number_of_channels =
     (if 7 \<ge> number_of_channels then number_of_channels - 1 else 7)"

text \<open>\<^verbatim>\<open>range(a, b)\<close>, whose elements are used as list indices.\<close>

definition range_py :: "int \<Rightarrow> int \<Rightarrow> nat list" where
  "range_py a b = map nat [a..b - 1]"

text \<open>
  Line 107, in exact arithmetic: nine tenths. (The double that Python reads from
  \<^verbatim>\<open>0.9\<close> is slightly larger; it is \<open>c_0_9\<close> of the second embedding.)
\<close>

definition tolerance_ratio :: real where
  "tolerance_ratio = 0.9"

subsection \<open>Initialisation (lines 105 to 111)\<close>

definition initial_state :: state where
  "initial_state =
     \<lparr>data_vol_pre = [0, 0, 0, 0, 0, 0, 0, 0],
      data_vol_incr = [0, 0, 0, 0, 0, 0, 0, 0],
      stdout = []\<rparr>"

fun init_channels :: "frame \<Rightarrow> nat list \<Rightarrow> state \<Rightarrow> outcome" where
  "init_channels a_in [] st = Ok st"
| "init_channels a_in (channel # rest) st =
     (case a_in channel of
        Inl e \<Rightarrow> Raise e st
      | Inr v \<Rightarrow>
          if channel < length (data_vol_pre st)
          then init_channels a_in rest (st\<lparr>data_vol_pre := (data_vol_pre st)[channel := v]\<rparr>)
          else Raise IndexError st)"

subsection \<open>One channel of one iteration (lines 129 to 138)\<close>

text \<open>
  \<open>data_vol\<close> is the sample just read for \<open>channel\<close>. The three branches add to the
  accumulator; line 135 divides by \<open>data_vol_max\<close> and raises when it is zero, before
  line 136 stores the sample and line 137 prints.
\<close>

definition channel_update :: "real \<Rightarrow> real \<Rightarrow> nat \<Rightarrow> real \<Rightarrow> state \<Rightarrow> outcome" where
  "channel_update data_vol_max tolerance channel data_vol st =
     (if \<not> (channel < length (data_vol_pre st) \<and> channel < length (data_vol_incr st))
      then Raise IndexError st
      else
        let st1 =
          (if data_vol - data_vol_pre st ! channel > tolerance
           then st\<lparr>data_vol_incr := (data_vol_incr st)
                  [channel := data_vol_incr st ! channel
                     + (data_vol - data_vol_pre st ! channel - data_vol_max)]\<rparr>
           else if data_vol - data_vol_pre st ! channel < - 1.0 * tolerance
           then st\<lparr>data_vol_incr := (data_vol_incr st)
                  [channel := data_vol_incr st ! channel
                     + (data_vol - data_vol_pre st ! channel + data_vol_max)]\<rparr>
           else st\<lparr>data_vol_incr := (data_vol_incr st)
                  [channel := data_vol_incr st ! channel
                     + (data_vol - data_vol_pre st ! channel)]\<rparr>)
        in
          if data_vol_max = 0 then Raise ZeroDivisionError st1
          else
            let data_rad = data_vol_incr st1 ! channel / data_vol_max * 2 * pi;
                st2 = st1\<lparr>data_vol_pre := (data_vol_pre st1)[channel := data_vol]\<rparr>
            in Ok (st2\<lparr>stdout := stdout st2 @ [channel_line channel data_rad]\<rparr>))"

subsection \<open>One iteration of the polling loop (lines 115 to 140)\<close>

fun poll_channels :: "frame \<Rightarrow> real \<Rightarrow> real \<Rightarrow> nat list \<Rightarrow> state \<Rightarrow> outcome" where
  "poll_channels a_in data_vol_max tolerance [] st = Ok st"
| "poll_channels a_in data_vol_max tolerance (channel # rest) st =
     (case a_in channel of
        Inl e \<Rightarrow> Raise e st
      | Inr data_vol \<Rightarrow>
          (case channel_update data_vol_max tolerance channel data_vol st of
             Ok st' \<Rightarrow> poll_channels a_in data_vol_max tolerance rest st'
           | Raise e st' \<Rightarrow> Raise e st'))"

text \<open>
  The reference voltage \<open>data_vol_max\<close> is read from channel 0 in every iteration and the
  data channels run from \<open>low_channel + 1\<close>. \<^verbatim>\<open>sleep(0.001)\<close> changes nothing in the
  state and is left out.
\<close>

definition poll_iteration :: "string \<Rightarrow> string \<Rightarrow> int \<Rightarrow> frame \<Rightarrow> state \<Rightarrow> outcome" where
  "poll_iteration dev_string unique_id number_of_channels a_in st =
     (let st0 = st\<lparr>stdout := stdout st @ header_lines dev_string unique_id\<rparr> in
      case a_in 0 of
        Inl e \<Rightarrow> Raise e st0
      | Inr data_vol_max \<Rightarrow>
          let tolerance = data_vol_max * tolerance_ratio in
          poll_channels a_in data_vol_max tolerance
            (range_py (low_channel + 1) (high_channel number_of_channels + 1)) st0)"

subsection \<open>The polling loop (lines 113 to 142)\<close>

text \<open>
  \<^verbatim>\<open>while True\<close> has no exit of its own. The loop is run against the list of frames
  the device delivers, one per iteration; when the list is used up the loop is still
  polling. An exception of the three classes of line 141 leaves the loop by
  \<^verbatim>\<open>break\<close>; any other exception propagates out of the loop.
\<close>

datatype loop_result = Polling state | Break state | Propagate exn state

fun loop_state :: "loop_result \<Rightarrow> state" where
  "loop_state (Polling st) = st"
| "loop_state (Break st) = st"
| "loop_state (Propagate e st) = st"

fun poll_loop :: "string \<Rightarrow> string \<Rightarrow> int \<Rightarrow> frame list \<Rightarrow> state \<Rightarrow> loop_result" where
  "poll_loop dev_string unique_id number_of_channels [] st = Polling st"
| "poll_loop dev_string unique_id number_of_channels (a_in # frames) st =
     (case poll_iteration dev_string unique_id number_of_channels a_in st of
        Ok st' \<Rightarrow> poll_loop dev_string unique_id number_of_channels frames st'
      | Raise e st' \<Rightarrow>
          if e = ValueError \<or> e = NameError \<or> e = SyntaxError then Break st'
          else Propagate e st')"

subsection \<open>The session and its handlers (lines 103 to 147)\<close>

text \<open>
  How the part of \<^verbatim>\<open>main\<close> after \<^verbatim>\<open>system('clear')\<close> ends: the loop was left by
  \<^verbatim>\<open>break\<close>; a \<^verbatim>\<open>KeyboardInterrupt\<close> was swallowed by line 143; a
  \<^verbatim>\<open>RuntimeError\<close> was printed by line 147; any other exception leaves
  \<^verbatim>\<open>main\<close> uncaught. \<open>Still_polling\<close> stands for a loop that has not ended within
  the frames given.
\<close>

datatype session_end =
    Loop_broke
  | Interrupted
  | Error_printed
  | Uncaught exn
  | Still_polling

fun handle_exn :: "exn \<Rightarrow> state \<Rightarrow> session_end \<times> state" where
  "handle_exn KeyboardInterrupt st = (Interrupted, st)"
| "handle_exn (RuntimeError msg) st = (Error_printed, st\<lparr>stdout := stdout st @ ['''', '' '' @ msg]\<rparr>)"
| "handle_exn e st = (Uncaught e, st)"

definition session ::
  "string \<Rightarrow> string \<Rightarrow> int \<Rightarrow> frame \<Rightarrow> frame list \<Rightarrow> session_end \<times> state" where
  "session dev_string unique_id number_of_channels first_frame frames =
     (case init_channels first_frame
             (range_py low_channel (high_channel number_of_channels + 1)) initial_state of
        Raise e st \<Rightarrow> handle_exn e st
      | Ok st \<Rightarrow>
          (case poll_loop dev_string unique_id number_of_channels frames st of
             Polling st' \<Rightarrow> (Still_polling, st')
           | Break st' \<Rightarrow> (Loop_broke, st')
           | Propagate e st' \<Rightarrow> handle_exn e st'))"

subsection \<open>The float computations in the arithmetic of the program\<close>

text \<open>
  The definitions above compute in exact real arithmetic. Lines 122 to 138 compute
  with Python floats: every sum, difference, product and quotient is rounded, the
  literal \<^verbatim>\<open>0.9\<close> and \<^verbatim>\<open>math.pi\<close> are doubles, a zero has a sign that
  \<^verbatim>\<open>'{:.6f}'\<close> prints, and the comparisons of lines 129 and 131 compare the rounded
  values. Which branch an update takes and which text it prints depend on all of
  that, so these lines are embedded a second time with the arithmetic as a
  parameter: \<open>'f\<close> is the type of the float values and \<open>'f arith\<close> holds the operations
  and constants the lines use. Python's arithmetic on doubles is one such arithmetic;
  \<open>exact_arith\<close> below is the one of the definitions above.

  \<^item> \<open>f_add\<close>, \<open>f_sub\<close>, \<open>f_mul\<close>, \<open>f_div\<close>: the float operations \<^verbatim>\<open>+\<close>, \<^verbatim>\<open>-\<close>,
    \<^verbatim>\<open>*\<close>, \<^verbatim>\<open>/\<close> (the last one for a divisor that is not zero);
  \<^item> \<open>f_gt\<close>, \<open>f_lt\<close>: the comparisons \<^verbatim>\<open>>\<close> and \<^verbatim>\<open><\<close>;
  \<^item> \<open>f_is_zero\<close>: the divisor test of float division, which raises
    \<^verbatim>\<open>ZeroDivisionError\<close> for \<^verbatim>\<open>0.0\<close> and \<^verbatim>\<open>-0.0\<close>;
  \<^item> \<open>c_0_9\<close>, \<open>c_neg_1_0\<close>, \<open>c_2\<close>, \<open>c_pi\<close>: the values of \<^verbatim>\<open>0.9\<close>, \<^verbatim>\<open>-1.0\<close>, of the
    integer \<^verbatim>\<open>2\<close> converted for the product of line 135, and of \<^verbatim>\<open>math.pi\<close>;
  \<^item> \<open>fmt_6f\<close>: \<^verbatim>\<open>'{:.6f}'.format\<close>.
\<close>

record 'f arith =
  f_add :: "'f \<Rightarrow> 'f \<Rightarrow> 'f"
  f_sub :: "'f \<Rightarrow> 'f \<Rightarrow> 'f"
  f_mul :: "'f \<Rightarrow> 'f \<Rightarrow> 'f"
  f_div :: "'f \<Rightarrow> 'f \<Rightarrow> 'f"
  f_gt :: "'f \<Rightarrow> 'f \<Rightarrow> bool"
  f_lt :: "'f \<Rightarrow> 'f \<Rightarrow> bool"
  f_is_zero :: "'f \<Rightarrow> bool"
  c_0_9 :: 'f
  c_neg_1_0 :: 'f
  c_2 :: 'f
  c_pi :: 'f
  fmt_6f :: "'f \<Rightarrow> string"

text \<open>Line 137.\<close>

definition channel_line_fl :: "'f arith \<Rightarrow> nat \<Rightarrow> 'f \<Rightarrow> string" where
  "channel_line_fl fl channel data_rad =
     ''Channel('' @ str_nat channel @ '') Data: '' @ fmt_6f fl data_rad"

text \<open>
  Lines 129 to 138. \<^verbatim>\<open>a - b - c\<close> is \<^verbatim>\<open>(a - b) - c\<close>, \<^verbatim>\<open>x += y\<close> stores
  \<^verbatim>\<open>x + y\<close>, and \<^verbatim>\<open>a / b * 2 * math.pi\<close> is \<^verbatim>\<open>((a / b) * 2) * math.pi\<close>.
\<close>

definition channel_update_fl ::
  "'f arith \<Rightarrow> 'f \<Rightarrow> 'f \<Rightarrow> nat \<Rightarrow> 'f \<Rightarrow> 'f gen_state \<Rightarrow> 'f gen_outcome" where
  "channel_update_fl fl data_vol_max tolerance channel data_vol st =
     (if \<not> (channel < length (data_vol_pre st) \<and> channel < length (data_vol_incr st))
      then Raise IndexError st
      else
        let st1 =
          (if f_gt fl (f_sub fl data_vol (data_vol_pre st ! channel)) tolerance
           then st\<lparr>data_vol_incr := (data_vol_incr st)
                  [channel := f_add fl (data_vol_incr st ! channel)
                     (f_sub fl (f_sub fl data_vol (data_vol_pre st ! channel)) data_vol_max)]\<rparr>
           else if f_lt fl (f_sub fl data_vol (data_vol_pre st ! channel))
                     (f_mul fl (c_neg_1_0 fl) tolerance)
           then st\<lparr>data_vol_incr := (data_vol_incr st)
                  [channel := f_add fl (data_vol_incr st ! channel)
                     (f_add fl (f_sub fl data_vol (data_vol_pre st ! channel)) data_vol_max)]\<rparr>
           else st\<lparr>data_vol_incr := (data_vol_incr st)
                  [channel := f_add fl (data_vol_incr st ! channel)
                     (f_sub fl data_vol (data_vol_pre st ! channel))]\<rparr>)
        in
          if f_is_zero fl data_vol_max then Raise ZeroDivisionError st1
          else
            let data_rad =
                  f_mul fl (f_mul fl (f_div fl (data_vol_incr st1 ! channel) data_vol_max)
                    (c_2 fl)) (c_pi fl);
                st2 = st1\<lparr>data_vol_pre := (data_vol_pre st1)[channel := data_vol]\<rparr>
            in Ok (st2\<lparr>stdout := stdout st2 @ [channel_line_fl fl channel data_rad]\<rparr>))"

text \<open>Lines 125 to 138.\<close>

fun poll_channels_fl ::
  "'f arith \<Rightarrow> 'f gen_frame \<Rightarrow> 'f \<Rightarrow> 'f \<Rightarrow> nat list \<Rightarrow> 'f gen_state \<Rightarrow> 'f gen_outcome" where
  "poll_channels_fl fl a_in data_vol_max tolerance [] st = Ok st"
| "poll_channels_fl fl a_in data_vol_max tolerance (channel # rest) st =
     (case a_in channel of
        Inl e \<Rightarrow> Raise e st
      | Inr data_vol \<Rightarrow>
          (case channel_update_fl fl data_vol_max tolerance channel data_vol st of
             Ok st' \<Rightarrow> poll_channels_fl fl a_in data_vol_max tolerance rest st'
           | Raise e st' \<Rightarrow> Raise e st'))"

text \<open>Lines 115 to 140.\<close>

definition poll_iteration_fl ::
  "'f arith \<Rightarrow> string \<Rightarrow> string \<Rightarrow> int \<Rightarrow> 'f gen_frame \<Rightarrow> 'f gen_state \<Rightarrow> 'f gen_outcome" where
  "poll_iteration_fl fl dev_string unique_id number_of_channels a_in st =
     (let st0 = st\<lparr>stdout := stdout st @ header_lines dev_string unique_id\<rparr> in
      case a_in 0 of
        Inl e \<Rightarrow> Raise e st0
      | Inr data_vol_max \<Rightarrow>
          let tolerance = f_mul fl data_vol_max (c_0_9 fl) in
          poll_channels_fl fl a_in data_vol_max tolerance
            (range_py (low_channel + 1) (high_channel number_of_channels + 1)) st0)"

text \<open>
  Exact arithmetic on the reals, with the real numbers nine tenths and \<^term>\<open>pi\<close> for
  the two constants and \<open>format_6f\<close> for the formatting: with it the three functions
  above are \<open>channel_update\<close>, \<open>poll_channels\<close> and \<open>poll_iteration\<close> (lemmas
  \<open>channel_update_exact\<close>, \<open>poll_channels_exact\<close> and \<open>poll_iteration_exact\<close>).
\<close>

definition exact_arith :: "real arith" where
  "exact_arith =
     \<lparr>f_add = (+), f_sub = (-), f_mul = (*), f_div = (/),
      f_gt = (\<lambda>a b. a > b), f_lt = (\<lambda>a b. a < b), f_is_zero = (\<lambda>a. a = 0),
      c_0_9 = tolerance_ratio, c_neg_1_0 = - 1.0, c_2 = 2, c_pi = pi,
      fmt_6f = format_6f\<rparr>"

subsection \<open>The contract of the specification\<close>

text \<open>
  The increment the specification prescribes for one update (section 4.1), written from
  its words: with \<open>tolerance = data_vol_max * 0.9\<close>, a delta above the tolerance is
  lowered by \<open>data_vol_max\<close>, else a delta below minus the tolerance is raised by
  \<open>data_vol_max\<close>, else the delta is taken as it is. The theorems below compare
  \<open>channel_update\<close> with it.
\<close>

definition spec_increment :: "real \<Rightarrow> real \<Rightarrow> real" where
  "spec_increment data_vol_max delta =
     (if delta > data_vol_max * 0.9 then delta - data_vol_max
      else if delta < - (data_vol_max * 0.9) then delta + data_vol_max
      else delta)"

text \<open>
  The same contract in an arithmetic \<open>fl\<close>: the new accumulator, from the reference,
  the accumulator, the previous voltage and the sample, and the angle reported for an
  accumulator. \<open>-tolerance\<close> is the product of \<^verbatim>\<open>-1.0\<close> and the tolerance, as in
  line 131.
\<close>

definition contract_accumulator :: "'f arith \<Rightarrow> 'f \<Rightarrow> 'f \<Rightarrow> 'f \<Rightarrow> 'f \<Rightarrow> 'f" where
  "contract_accumulator fl data_vol_max accumulated previous new =
     (if f_gt fl (f_sub fl new previous) (f_mul fl data_vol_max (c_0_9 fl))
      then f_add fl accumulated (f_sub fl (f_sub fl new previous) data_vol_max)
      else if f_lt fl (f_sub fl new previous)
                (f_mul fl (c_neg_1_0 fl) (f_mul fl data_vol_max (c_0_9 fl)))
      then f_add fl accumulated (f_add fl (f_sub fl new previous) data_vol_max)
      else f_add fl accumulated (f_sub fl new previous))"

definition contract_angle :: "'f arith \<Rightarrow> 'f \<Rightarrow> 'f \<Rightarrow> 'f" where
  "contract_angle fl data_vol_max accumulated =
     f_mul fl (f_mul fl (f_div fl accumulated data_vol_max) (c_2 fl)) (c_pi fl)"

text \<open>The channels of lines 108 and 125.\<close>

abbreviation all_channels :: "int \<Rightarrow> nat list" where
  "all_channels N \<equiv> range_py low_channel (high_channel N + 1)"

abbreviation data_channels :: "int \<Rightarrow> nat list" where
  "data_channels N \<equiv> range_py (low_channel + 1) (high_channel N + 1)"

section \<open>Auxiliary lemmas\<close>

subsection \<open>Runs without a fault\<close>

lemma channel_update_Ok:
  assumes "c < length (data_vol_pre st)" "c < length (data_vol_incr st)" "m \<noteq> 0"
  shows "channel_update m (m * tolerance_ratio) c v st =
     Ok \<lparr>data_vol_pre = (data_vol_pre st)[c := v],
         data_vol_incr = (data_vol_incr st)
            [c := data_vol_incr st ! c + spec_increment m (v - data_vol_pre st ! c)],
         stdout = stdout st @
            [channel_line c ((data_vol_incr st ! c + spec_increment m (v - data_vol_pre st ! c))
                / m * 2 * pi)]\<rparr>"
  using assms
  by (simp add: channel_update_def tolerance_ratio_def spec_increment_def Let_def)

lemma channel_update_zero:
  assumes "c < length (data_vol_pre st)" "c < length (data_vol_incr st)"
  shows "channel_update 0 (0 * tolerance_ratio) c v st =
     Raise ZeroDivisionError (st\<lparr>data_vol_incr := (data_vol_incr st)
            [c := data_vol_incr st ! c + (v - data_vol_pre st ! c)]\<rparr>)"
  using assms
  by (simp add: channel_update_def tolerance_ratio_def Let_def)

lemma range_py_distinct: "0 \<le> a \<Longrightarrow> distinct (range_py a b)"
  by (auto simp: range_py_def distinct_map inj_on_def)

lemma data_channels_bound:
  "c \<in> set (range_py (low_channel + 1) (high_channel N + 1)) \<Longrightarrow> 1 \<le> c \<and> c < 8"
  by (auto simp: range_py_def low_channel_def high_channel_def split: if_splits)


lemma poll_channels_Ok:
  assumes "distinct cs"
    and "\<And>c. c \<in> set cs \<Longrightarrow> c < length (data_vol_pre st) \<and> c < length (data_vol_incr st) \<and> a_in c = Inr (vs c)"
    and "m \<noteq> 0"
  shows "\<exists>st'. poll_channels a_in m (m * tolerance_ratio) cs st = Ok st' \<and>
     length (data_vol_pre st') = length (data_vol_pre st) \<and>
     length (data_vol_incr st') = length (data_vol_incr st) \<and>
     (\<forall>c. data_vol_pre st' ! c = (if c \<in> set cs then vs c else data_vol_pre st ! c)) \<and>
     (\<forall>c. data_vol_incr st' ! c =
        (if c \<in> set cs then data_vol_incr st ! c + spec_increment m (vs c - data_vol_pre st ! c)
         else data_vol_incr st ! c)) \<and>
     stdout st' = stdout st @
       map (\<lambda>c. channel_line c
          ((data_vol_incr st ! c + spec_increment m (vs c - data_vol_pre st ! c)) / m * 2 * pi)) cs"
  using assms
proof (induction cs arbitrary: st)
  case Nil
  then show ?case by simp
next
  case (Cons c rest)
  let ?st1 = "\<lparr>data_vol_pre = (data_vol_pre st)[c := vs c],
         data_vol_incr = (data_vol_incr st)
            [c := data_vol_incr st ! c + spec_increment m (vs c - data_vol_pre st ! c)],
         stdout = stdout st @
            [channel_line c ((data_vol_incr st ! c + spec_increment m (vs c - data_vol_pre st ! c))
                / m * 2 * pi)]\<rparr>"
  have c: "c < length (data_vol_pre st)" "c < length (data_vol_incr st)" "a_in c = Inr (vs c)"
    using Cons.prems(2)[of c] by simp_all
  have upd: "channel_update m (m * tolerance_ratio) c (vs c) st = Ok ?st1"
    using channel_update_Ok[OF c(1) c(2) Cons.prems(3)] .
  have step: "poll_channels a_in m (m * tolerance_ratio) (c # rest) st =
      poll_channels a_in m (m * tolerance_ratio) rest ?st1"
    by (simp add: c(3) upd)
  have d: "distinct rest" "c \<notin> set rest" using Cons.prems(1) by simp_all
  have pre: "\<And>c'. c' \<in> set rest \<Longrightarrow> c' < length (data_vol_pre ?st1) \<and>
      c' < length (data_vol_incr ?st1) \<and> a_in c' = Inr (vs c')"
    using Cons.prems(2) by simp
  from Cons.IH[OF d(1) pre Cons.prems(3)]
  obtain st' where st': "poll_channels a_in m (m * tolerance_ratio) rest ?st1 = Ok st'"
     "length (data_vol_pre st') = length (data_vol_pre ?st1)"
     "length (data_vol_incr st') = length (data_vol_incr ?st1)"
     "\<And>x. data_vol_pre st' ! x = (if x \<in> set rest then vs x else data_vol_pre ?st1 ! x)"
     "\<And>x. data_vol_incr st' ! x =
        (if x \<in> set rest then data_vol_incr ?st1 ! x + spec_increment m (vs x - data_vol_pre ?st1 ! x)
         else data_vol_incr ?st1 ! x)"
     "stdout st' = stdout ?st1 @
       map (\<lambda>x. channel_line x
          ((data_vol_incr ?st1 ! x + spec_increment m (vs x - data_vol_pre ?st1 ! x)) / m * 2 * pi)) rest"
    by blast
  have neq: "\<And>x. x \<in> set rest \<Longrightarrow> x \<noteq> c" using d(2) by auto
  have p1: "\<And>x. data_vol_pre st' ! x = (if x \<in> set (c # rest) then vs x else data_vol_pre st ! x)"
    using st'(4) c(1) d(2) by (auto simp: nth_list_update)
  have p2: "\<And>x. data_vol_incr st' ! x =
        (if x \<in> set (c # rest) then data_vol_incr st ! x + spec_increment m (vs x - data_vol_pre st ! x)
         else data_vol_incr st ! x)"
    using st'(5) c(1) c(2) d(2) by (auto simp: nth_list_update)
  have p3: "stdout st' = stdout st @
       map (\<lambda>x. channel_line x
          ((data_vol_incr st ! x + spec_increment m (vs x - data_vol_pre st ! x)) / m * 2 * pi)) (c # rest)"
  proof -
    have "map (\<lambda>x. channel_line x
          ((data_vol_incr ?st1 ! x + spec_increment m (vs x - data_vol_pre ?st1 ! x)) / m * 2 * pi)) rest
      = map (\<lambda>x. channel_line x
          ((data_vol_incr st ! x + spec_increment m (vs x - data_vol_pre st ! x)) / m * 2 * pi)) rest"
    proof (rule map_cong[OF refl])
      fix x assume "x \<in> set rest"
      then have "x \<noteq> c" by (rule neq)
      then show "channel_line x
          ((data_vol_incr ?st1 ! x + spec_increment m (vs x - data_vol_pre ?st1 ! x)) / m * 2 * pi)
        = channel_line x
          ((data_vol_incr st ! x + spec_increment m (vs x - data_vol_pre st ! x)) / m * 2 * pi)"
        by simp
    qed
    with st'(6) show ?thesis by simp
  qed
  show ?case
    using step st'(1,2,3) p1 p2 p3 by simp
qed


lemma data_channels_distinct: "distinct (data_channels N)"
  by (rule range_py_distinct) (simp add: low_channel_def)

lemma poll_iteration_Ok:
  assumes len: "length (data_vol_pre st) = 8" "length (data_vol_incr st) = 8"
    and reads: "\<And>c. c \<in> set (data_channels N) \<Longrightarrow> a_in c = Inr (vs c)"
    and ref: "a_in 0 = Inr m" "m \<noteq> 0"
  shows "\<exists>st'. poll_iteration d u N a_in st = Ok st' \<and>
     length (data_vol_pre st') = 8 \<and> length (data_vol_incr st') = 8 \<and>
     (\<forall>c. data_vol_pre st' ! c = (if c \<in> set (data_channels N) then vs c else data_vol_pre st ! c)) \<and>
     (\<forall>c. data_vol_incr st' ! c =
        (if c \<in> set (data_channels N)
         then data_vol_incr st ! c + spec_increment m (vs c - data_vol_pre st ! c)
         else data_vol_incr st ! c)) \<and>
     stdout st' = stdout st @ header_lines d u @
       map (\<lambda>c. channel_line c (data_vol_incr st' ! c / m * 2 * pi)) (data_channels N)"
proof -
  let ?st0 = "st\<lparr>stdout := stdout st @ header_lines d u\<rparr>"
  have pre: "\<And>c. c \<in> set (data_channels N) \<Longrightarrow>
      c < length (data_vol_pre ?st0) \<and> c < length (data_vol_incr ?st0) \<and> a_in c = Inr (vs c)"
    using data_channels_bound[of _ N] len reads by fastforce
  from poll_channels_Ok[OF data_channels_distinct pre ref(2)]
  obtain st' where st': "poll_channels a_in m (m * tolerance_ratio) (data_channels N) ?st0 = Ok st'"
     "length (data_vol_pre st') = length (data_vol_pre ?st0)"
     "length (data_vol_incr st') = length (data_vol_incr ?st0)"
     "\<And>c. data_vol_pre st' ! c = (if c \<in> set (data_channels N) then vs c else data_vol_pre ?st0 ! c)"
     "\<And>c. data_vol_incr st' ! c =
        (if c \<in> set (data_channels N)
         then data_vol_incr ?st0 ! c + spec_increment m (vs c - data_vol_pre ?st0 ! c)
         else data_vol_incr ?st0 ! c)"
     "stdout st' = stdout ?st0 @
       map (\<lambda>c. channel_line c
          ((data_vol_incr ?st0 ! c + spec_increment m (vs c - data_vol_pre ?st0 ! c)) / m * 2 * pi))
        (data_channels N)"
    by blast
  have run: "poll_iteration d u N a_in st = Ok st'"
    using st'(1) ref(1) by (simp add: poll_iteration_def Let_def)
  have lines: "map (\<lambda>c. channel_line c
          ((data_vol_incr ?st0 ! c + spec_increment m (vs c - data_vol_pre ?st0 ! c)) / m * 2 * pi))
        (data_channels N)
     = map (\<lambda>c. channel_line c (data_vol_incr st' ! c / m * 2 * pi)) (data_channels N)"
    by (rule map_cong[OF refl]) (simp add: st'(5))
  have out: "stdout st' = stdout st @ header_lines d u @
       map (\<lambda>c. channel_line c (data_vol_incr st' ! c / m * 2 * pi)) (data_channels N)"
    using st'(6) lines by simp
  show ?thesis
    using run st'(2,3,4,5) len out by simp
qed

lemma poll_loop_append:
  "poll_loop d u N (fs @ gs) st =
     (case poll_loop d u N fs st of
        Polling st' \<Rightarrow> poll_loop d u N gs st'
      | Break st' \<Rightarrow> Break st'
      | Propagate e st' \<Rightarrow> Propagate e st')"
  by (induction fs arbitrary: st) (auto split: gen_outcome.splits)


lemma poll_loop_Polling:
  assumes len: "length (data_vol_pre st) = 8" "length (data_vol_incr st) = 8"
    and reads: "\<And>i c. i < length fs \<Longrightarrow> c \<in> set (data_channels N) \<Longrightarrow> (fs ! i) c = Inr (vs (Suc i) c)"
    and ref: "\<And>i. i < length fs \<Longrightarrow> (fs ! i) 0 = Inr (ms i) \<and> ms i \<noteq> 0"
    and start: "\<And>c. c \<in> set (data_channels N) \<Longrightarrow> data_vol_pre st ! c = vs 0 c"
  shows "\<exists>st'. poll_loop d u N fs st = Polling st' \<and>
     length (data_vol_pre st') = 8 \<and> length (data_vol_incr st') = 8 \<and>
     (\<forall>c. data_vol_pre st' ! c =
        (if c \<in> set (data_channels N) then vs (length fs) c else data_vol_pre st ! c)) \<and>
     (\<forall>c. data_vol_incr st' ! c =
        (if c \<in> set (data_channels N)
         then data_vol_incr st ! c + (\<Sum>i<length fs. spec_increment (ms i) (vs (Suc i) c - vs i c))
         else data_vol_incr st ! c)) \<and>
     (fs \<noteq> [] \<longrightarrow> (\<exists>out. stdout st' = out @ header_lines d u @
         map (\<lambda>c. channel_line c (data_vol_incr st' ! c / ms (length fs - 1) * 2 * pi))
           (data_channels N)))"
  using reads ref
proof (induction fs rule: rev_induct)
  case Nil
  then show ?case using len start by simp
next
  case (snoc f fs)
  have r1: "\<And>i c. i < length fs \<Longrightarrow> c \<in> set (data_channels N) \<Longrightarrow> (fs ! i) c = Inr (vs (Suc i) c)"
    using snoc.prems(1)[of _ ] by (metis length_append_singleton less_Suc_eq nth_append)
  have r2: "\<And>i. i < length fs \<Longrightarrow> (fs ! i) 0 = Inr (ms i) \<and> ms i \<noteq> 0"
    using snoc.prems(2) by (metis length_append_singleton less_Suc_eq nth_append)
  from snoc.IH[OF r1 r2]
  obtain st1 where st1: "poll_loop d u N fs st = Polling st1"
     "length (data_vol_pre st1) = 8" "length (data_vol_incr st1) = 8"
     "\<And>c. data_vol_pre st1 ! c =
        (if c \<in> set (data_channels N) then vs (length fs) c else data_vol_pre st ! c)"
     "\<And>c. data_vol_incr st1 ! c =
        (if c \<in> set (data_channels N)
         then data_vol_incr st ! c + (\<Sum>i<length fs. spec_increment (ms i) (vs (Suc i) c - vs i c))
         else data_vol_incr st ! c)"
    by blast
  have f1: "\<And>c. c \<in> set (data_channels N) \<Longrightarrow> f c = Inr (vs (Suc (length fs)) c)"
    using snoc.prems(1)[of "length fs"] by simp
  have f2: "f 0 = Inr (ms (length fs))" "ms (length fs) \<noteq> 0"
    using snoc.prems(2)[of "length fs"] by simp_all
  from poll_iteration_Ok[where st = st1 and N = N and a_in = f and vs = "vs (Suc (length fs))"
      and m = "ms (length fs)" and d = d and u = u, OF st1(2) st1(3) f1 f2]
  obtain st' where st': "poll_iteration d u N f st1 = Ok st'"
     "length (data_vol_pre st') = 8" "length (data_vol_incr st') = 8"
     "\<And>c. data_vol_pre st' ! c =
        (if c \<in> set (data_channels N) then vs (Suc (length fs)) c else data_vol_pre st1 ! c)"
     "\<And>c. data_vol_incr st' ! c =
        (if c \<in> set (data_channels N)
         then data_vol_incr st1 ! c
            + spec_increment (ms (length fs)) (vs (Suc (length fs)) c - data_vol_pre st1 ! c)
         else data_vol_incr st1 ! c)"
     "stdout st' = stdout st1 @ header_lines d u @
       map (\<lambda>c. channel_line c (data_vol_incr st' ! c / ms (length fs) * 2 * pi)) (data_channels N)"
    by blast
  have run: "poll_loop d u N (fs @ [f]) st = Polling st'"
    by (simp add: poll_loop_append st1(1) st'(1))
  have p1: "\<And>c. data_vol_pre st' ! c =
        (if c \<in> set (data_channels N) then vs (length (fs @ [f])) c else data_vol_pre st ! c)"
    by (simp add: st'(4) st1(4))
  have p2: "\<And>c. data_vol_incr st' ! c =
        (if c \<in> set (data_channels N)
         then data_vol_incr st ! c
            + (\<Sum>i<length (fs @ [f]). spec_increment (ms i) (vs (Suc i) c - vs i c))
         else data_vol_incr st ! c)"
    by (simp add: st'(5) st1(4) st1(5))
  have p3: "\<exists>out. stdout st' = out @ header_lines d u @
         map (\<lambda>c. channel_line c (data_vol_incr st' ! c / ms (length (fs @ [f]) - 1) * 2 * pi))
           (data_channels N)"
    using st'(6) by auto
  show ?case
    using run st'(2,3) p1 p2 p3 by blast
qed

subsection \<open>Sessions without a fault\<close>

lemma all_channels_bound: "c \<in> set (all_channels N) \<Longrightarrow> c < 8"
  by (auto simp: range_py_def low_channel_def high_channel_def split: if_splits)

lemma data_channels_subset: "c \<in> set (data_channels N) \<Longrightarrow> c \<in> set (all_channels N)"
  by (auto simp: range_py_def low_channel_def)

lemma zero_not_data_channel: "0 \<notin> set (data_channels N)"
  by (auto simp: range_py_def low_channel_def)

lemma initial_state_simps:
  "length (data_vol_pre initial_state) = 8" "length (data_vol_incr initial_state) = 8"
  "stdout initial_state = []"
  by (simp_all add: initial_state_def)

lemma initial_incr_zero: "c < 8 \<Longrightarrow> data_vol_incr initial_state ! c = 0"
proof -
  have "data_vol_incr initial_state = replicate 8 0"
    by (simp add: initial_state_def eval_nat_numeral)
  then show "c < 8 \<Longrightarrow> data_vol_incr initial_state ! c = 0" by simp
qed

lemma init_channels_Ok:
  assumes "\<And>c. c \<in> set cs \<Longrightarrow> c < length (data_vol_pre st) \<and> a_in c = Inr (vs c)"
  shows "\<exists>st'. init_channels a_in cs st = Ok st' \<and>
     data_vol_incr st' = data_vol_incr st \<and> stdout st' = stdout st \<and>
     length (data_vol_pre st') = length (data_vol_pre st) \<and>
     (\<forall>c. data_vol_pre st' ! c = (if c \<in> set cs then vs c else data_vol_pre st ! c))"
  using assms
proof (induction cs arbitrary: st)
  case Nil
  then show ?case by simp
next
  case (Cons c rest)
  let ?st1 = "st\<lparr>data_vol_pre := (data_vol_pre st)[c := vs c]\<rparr>"
  have c: "c < length (data_vol_pre st)" "a_in c = Inr (vs c)"
    using Cons.prems[of c] by simp_all
  have pre: "\<And>x. x \<in> set rest \<Longrightarrow> x < length (data_vol_pre ?st1) \<and> a_in x = Inr (vs x)"
    using Cons.prems by simp
  from Cons.IH[OF pre]
  obtain st' where st': "init_channels a_in rest ?st1 = Ok st'"
     "data_vol_incr st' = data_vol_incr ?st1" "stdout st' = stdout ?st1"
     "length (data_vol_pre st') = length (data_vol_pre ?st1)"
     "\<And>x. data_vol_pre st' ! x = (if x \<in> set rest then vs x else data_vol_pre ?st1 ! x)"
    by blast
  have run: "init_channels a_in (c # rest) st = Ok st'"
    using c st'(1) by simp
  have p: "\<And>x. data_vol_pre st' ! x = (if x \<in> set (c # rest) then vs x else data_vol_pre st ! x)"
    using st'(5) c(1) by (auto simp: nth_list_update)
  show ?case using run st'(2,3,4) p by simp
qed

lemma session_Still_polling:
  assumes init: "\<And>c. c \<in> set (all_channels N) \<Longrightarrow> f_init c = Inr (vs 0 c)"
    and reads: "\<And>i c. i < length fs \<Longrightarrow> c \<in> set (data_channels N) \<Longrightarrow> (fs ! i) c = Inr (vs (Suc i) c)"
    and ref: "\<And>i. i < length fs \<Longrightarrow> (fs ! i) 0 = Inr (ms i) \<and> ms i \<noteq> 0"
  shows "\<exists>st'. session d u N f_init fs = (Still_polling, st') \<and>
     (\<forall>c. c \<in> set (data_channels N) \<longrightarrow>
        data_vol_pre st' ! c = vs (length fs) c \<and>
        data_vol_incr st' ! c = (\<Sum>i<length fs. spec_increment (ms i) (vs (Suc i) c - vs i c))) \<and>
     (fs \<noteq> [] \<longrightarrow> (\<exists>out. stdout st' = out @ header_lines d u @
         map (\<lambda>c. channel_line c (data_vol_incr st' ! c / ms (length fs - 1) * 2 * pi))
           (data_channels N)))"
proof -
  have pre: "\<And>c. c \<in> set (all_channels N) \<Longrightarrow>
      c < length (data_vol_pre initial_state) \<and> f_init c = Inr (vs 0 c)"
    using all_channels_bound[of _ N] init by (simp add: initial_state_simps)
  from init_channels_Ok[where a_in = f_init and cs = "all_channels N" and st = initial_state
      and vs = "vs 0", OF pre]
  obtain st0 where st0: "init_channels f_init (all_channels N) initial_state = Ok st0"
     "data_vol_incr st0 = data_vol_incr initial_state"
     "length (data_vol_pre st0) = length (data_vol_pre initial_state)"
     "\<And>c. data_vol_pre st0 ! c = (if c \<in> set (all_channels N) then vs 0 c
         else data_vol_pre initial_state ! c)"
    by blast
  have len: "length (data_vol_pre st0) = 8" "length (data_vol_incr st0) = 8"
    using st0(2,3) by (simp_all add: initial_state_simps)
  have start: "\<And>c. c \<in> set (data_channels N) \<Longrightarrow> data_vol_pre st0 ! c = vs 0 c"
    using st0(4) data_channels_subset by simp
  from poll_loop_Polling[where st = st0 and fs = fs and N = N and vs = vs and ms = ms
      and d = d and u = u, OF len reads ref start]
  obtain st' where st': "poll_loop d u N fs st0 = Polling st'"
     "\<And>c. data_vol_pre st' ! c =
        (if c \<in> set (data_channels N) then vs (length fs) c else data_vol_pre st0 ! c)"
     "\<And>c. data_vol_incr st' ! c =
        (if c \<in> set (data_channels N)
         then data_vol_incr st0 ! c + (\<Sum>i<length fs. spec_increment (ms i) (vs (Suc i) c - vs i c))
         else data_vol_incr st0 ! c)"
     "fs \<noteq> [] \<longrightarrow> (\<exists>out. stdout st' = out @ header_lines d u @
         map (\<lambda>c. channel_line c (data_vol_incr st' ! c / ms (length fs - 1) * 2 * pi))
           (data_channels N))"
    by blast
  have run: "session d u N f_init fs = (Still_polling, st')"
    by (simp add: session_def st0(1) st'(1))
  have acc: "\<And>c. c \<in> set (data_channels N) \<Longrightarrow>
        data_vol_incr st' ! c = (\<Sum>i<length fs. spec_increment (ms i) (vs (Suc i) c - vs i c))"
    using st'(3) st0(2) initial_incr_zero data_channels_bound[of _ N] by simp
  show ?thesis
    using run st'(2) acc st'(4) by auto
qed


lemma spec_increment_multiple:
  "\<exists>k::int. (k = - 1 \<or> k = 0 \<or> k = 1) \<and> spec_increment m d = d + of_int k * m"
  by (auto simp: spec_increment_def)

lemma sum_spec_increment_multiple:
  "\<exists>k::int. (\<Sum>i<(n::nat). spec_increment m (f i)) = (\<Sum>i<n. f i) + of_int k * m"
proof (induction n)
  case 0
  show ?case by (rule exI[of _ 0]) simp
next
  case (Suc n)
  then obtain k :: int where k: "(\<Sum>i<(n::nat). spec_increment m (f i)) = (\<Sum>i<n. f i) + of_int k * m"
    by blast
  obtain j :: int where j: "spec_increment m (f n) = f n + of_int j * m"
    using spec_increment_multiple[of m "f n"] by blast
  show ?case
    by (rule exI[of _ "k + j"]) (simp add: k j algebra_simps)
qed

subsection \<open>Runs with any outcome\<close>

lemma channel_update_any:
  "length (data_vol_pre (state_of (channel_update m (m * tolerance_ratio) c v st)))
     = length (data_vol_pre st) \<and>
   length (data_vol_incr (state_of (channel_update m (m * tolerance_ratio) c v st)))
     = length (data_vol_incr st) \<and>
   (\<forall>x. x \<noteq> c \<longrightarrow>
      data_vol_pre (state_of (channel_update m (m * tolerance_ratio) c v st)) ! x
        = data_vol_pre st ! x \<and>
      data_vol_incr (state_of (channel_update m (m * tolerance_ratio) c v st)) ! x
        = data_vol_incr st ! x) \<and>
   (data_vol_incr (state_of (channel_update m (m * tolerance_ratio) c v st)) ! c
        = data_vol_incr st ! c \<or>
    data_vol_incr (state_of (channel_update m (m * tolerance_ratio) c v st)) ! c
        = data_vol_incr st ! c + spec_increment m (v - data_vol_pre st ! c)) \<and>
   set (stdout (state_of (channel_update m (m * tolerance_ratio) c v st)))
     \<subseteq> set (stdout st) \<union> {channel_line c y | y. True}"
  by (auto simp: channel_update_def tolerance_ratio_def spec_increment_def Let_def)

lemma poll_channels_frame:
  "length (data_vol_pre (state_of (poll_channels a_in m (m * tolerance_ratio) cs st)))
     = length (data_vol_pre st) \<and>
   length (data_vol_incr (state_of (poll_channels a_in m (m * tolerance_ratio) cs st)))
     = length (data_vol_incr st) \<and>
   (\<forall>x. x \<notin> set cs \<longrightarrow>
      data_vol_pre (state_of (poll_channels a_in m (m * tolerance_ratio) cs st)) ! x
        = data_vol_pre st ! x \<and>
      data_vol_incr (state_of (poll_channels a_in m (m * tolerance_ratio) cs st)) ! x
        = data_vol_incr st ! x) \<and>
   set (stdout (state_of (poll_channels a_in m (m * tolerance_ratio) cs st)))
     \<subseteq> set (stdout st) \<union> {channel_line c y | c y. c \<in> set cs}"
proof (induction cs arbitrary: st)
  case Nil
  show ?case by simp
next
  case (Cons c rest)
  show ?case
  proof (cases "a_in c")
    case (Inl e)
    then show ?thesis by auto
  next
    case (Inr v)
    note U = channel_update_any[of m c v st]
    show ?thesis
    proof (cases "channel_update m (m * tolerance_ratio) c v st")
      case (Ok st1)
      then have s1: "state_of (channel_update m (m * tolerance_ratio) c v st) = st1" by simp
      have step: "poll_channels a_in m (m * tolerance_ratio) (c # rest) st
          = poll_channels a_in m (m * tolerance_ratio) rest st1"
        using Inr Ok by simp
      note I = Cons.IH[of st1]
      have a: "length (data_vol_pre (state_of (poll_channels a_in m (m * tolerance_ratio) rest st1)))
          = length (data_vol_pre st)"
        "length (data_vol_incr (state_of (poll_channels a_in m (m * tolerance_ratio) rest st1)))
          = length (data_vol_incr st)"
        using I U[unfolded s1] by simp_all
      have b: "\<forall>x. x \<notin> set (c # rest) \<longrightarrow>
          data_vol_pre (state_of (poll_channels a_in m (m * tolerance_ratio) rest st1)) ! x
            = data_vol_pre st ! x \<and>
          data_vol_incr (state_of (poll_channels a_in m (m * tolerance_ratio) rest st1)) ! x
            = data_vol_incr st ! x"
        using I U[unfolded s1] by simp
      have c: "set (stdout (state_of (poll_channels a_in m (m * tolerance_ratio) rest st1)))
          \<subseteq> set (stdout st) \<union> {channel_line ch y | ch y. ch \<in> set (c # rest)}"
      proof
        fix l assume "l \<in> set (stdout (state_of (poll_channels a_in m (m * tolerance_ratio) rest st1)))"
        with I have "l \<in> set (stdout st1) \<or> (\<exists>ch y. ch \<in> set rest \<and> l = channel_line ch y)"
          by auto
        moreover have "l \<in> set (stdout st1) \<Longrightarrow> l \<in> set (stdout st) \<or> (\<exists>y. l = channel_line c y)"
          using U[unfolded s1] by auto
        ultimately show "l \<in> set (stdout st) \<union> {channel_line ch y | ch y. ch \<in> set (c # rest)}"
          by auto
      qed
      show ?thesis unfolding step using a b c by simp
    next
      case (Raise e st1)
      then have s1: "state_of (channel_update m (m * tolerance_ratio) c v st) = st1" by simp
      have step: "state_of (poll_channels a_in m (m * tolerance_ratio) (c # rest) st) = st1"
        using Inr Raise by simp
      show ?thesis unfolding step using U[unfolded s1] by (auto simp: subset_iff)
    qed
  qed
qed

lemma poll_channels_increment:
  assumes "distinct cs"
  shows "\<forall>x. data_vol_incr (state_of (poll_channels a_in m (m * tolerance_ratio) cs st)) ! x
            = data_vol_incr st ! x \<or>
          (\<exists>v. a_in x = Inr v \<and> x \<in> set cs \<and>
             data_vol_incr (state_of (poll_channels a_in m (m * tolerance_ratio) cs st)) ! x
               = data_vol_incr st ! x + spec_increment m (v - data_vol_pre st ! x))"
  using assms
proof (induction cs arbitrary: st)
  case Nil
  show ?case by simp
next
  case (Cons c rest)
  have d: "distinct rest" "c \<notin> set rest" using Cons.prems by simp_all
  show ?case
  proof (cases "a_in c")
    case (Inl e)
    then show ?thesis by simp
  next
    case (Inr v)
    note U = channel_update_any[of m c v st]
    show ?thesis
    proof (cases "channel_update m (m * tolerance_ratio) c v st")
      case (Ok st1)
      then have s1: "state_of (channel_update m (m * tolerance_ratio) c v st) = st1" by simp
      have step: "poll_channels a_in m (m * tolerance_ratio) (c # rest) st
          = poll_channels a_in m (m * tolerance_ratio) rest st1"
        using Inr Ok by simp
      note I = Cons.IH[OF d(1), of st1]
      note F = poll_channels_frame[of a_in m rest st1]
      show ?thesis
        unfolding step
      proof
        fix x
        show "data_vol_incr (state_of (poll_channels a_in m (m * tolerance_ratio) rest st1)) ! x
            = data_vol_incr st ! x \<or>
          (\<exists>v. a_in x = Inr v \<and> x \<in> set (c # rest) \<and>
             data_vol_incr (state_of (poll_channels a_in m (m * tolerance_ratio) rest st1)) ! x
               = data_vol_incr st ! x + spec_increment m (v - data_vol_pre st ! x))"
        proof (cases "x = c")
          case True
          then have "data_vol_incr (state_of (poll_channels a_in m (m * tolerance_ratio) rest st1)) ! x
              = data_vol_incr st1 ! c"
            using F d(2) by simp
          then show ?thesis using U[unfolded s1] Inr True by auto
        next
          case False
          then have "data_vol_incr st1 ! x = data_vol_incr st ! x"
            "data_vol_pre st1 ! x = data_vol_pre st ! x"
            using U[unfolded s1] by simp_all
          then show ?thesis using I[rule_format, of x] by auto
        qed
      qed
    next
      case (Raise e st1)
      then have s1: "state_of (channel_update m (m * tolerance_ratio) c v st) = st1" by simp
      have step: "state_of (poll_channels a_in m (m * tolerance_ratio) (c # rest) st) = st1"
        using Inr Raise by simp
      show ?thesis
        unfolding step
      proof
        fix x
        show "data_vol_incr st1 ! x = data_vol_incr st ! x \<or>
          (\<exists>v. a_in x = Inr v \<and> x \<in> set (c # rest) \<and>
             data_vol_incr st1 ! x
               = data_vol_incr st ! x + spec_increment m (v - data_vol_pre st ! x))"
          using U[unfolded s1] Inr by (cases "x = c") auto
      qed
    qed
  qed
qed

lemma poll_iteration_any:
  "length (data_vol_pre (state_of (poll_iteration d u N f st))) = length (data_vol_pre st) \<and>
   length (data_vol_incr (state_of (poll_iteration d u N f st))) = length (data_vol_incr st) \<and>
   (\<forall>x. x \<notin> set (data_channels N) \<longrightarrow>
      data_vol_pre (state_of (poll_iteration d u N f st)) ! x = data_vol_pre st ! x \<and>
      data_vol_incr (state_of (poll_iteration d u N f st)) ! x = data_vol_incr st ! x) \<and>
   set (stdout (state_of (poll_iteration d u N f st)))
     \<subseteq> set (stdout st) \<union> set (header_lines d u)
        \<union> {channel_line c y | c y. c \<in> set (data_channels N)} \<and>
   (\<forall>x. data_vol_incr (state_of (poll_iteration d u N f st)) ! x = data_vol_incr st ! x \<or>
        (\<exists>r v. f 0 = Inr r \<and> f x = Inr v \<and> x \<in> set (data_channels N) \<and>
           data_vol_incr (state_of (poll_iteration d u N f st)) ! x
             = data_vol_incr st ! x + spec_increment r (v - data_vol_pre st ! x)))"
proof (cases "f 0")
  case (Inl e)
  then show ?thesis by (auto simp: poll_iteration_def Let_def)
next
  case (Inr m)
  let ?st0 = "st\<lparr>stdout := stdout st @ header_lines d u\<rparr>"
  have run: "poll_iteration d u N f st
      = poll_channels f m (m * tolerance_ratio) (data_channels N) ?st0"
    using Inr by (simp add: poll_iteration_def Let_def)
  note F = poll_channels_frame[of f m "data_channels N" ?st0]
  note G = poll_channels_increment[OF data_channels_distinct, of f m N ?st0]
  have a: "set (stdout (state_of (poll_channels f m (m * tolerance_ratio) (data_channels N) ?st0)))
     \<subseteq> set (stdout st) \<union> set (header_lines d u)
        \<union> {channel_line c y | c y. c \<in> set (data_channels N)}"
    using F by auto
  have b: "\<forall>x. data_vol_incr (state_of (poll_channels f m (m * tolerance_ratio) (data_channels N) ?st0)) ! x
          = data_vol_incr st ! x \<or>
        (\<exists>r v. f 0 = Inr r \<and> f x = Inr v \<and> x \<in> set (data_channels N) \<and>
           data_vol_incr (state_of (poll_channels f m (m * tolerance_ratio) (data_channels N) ?st0)) ! x
             = data_vol_incr st ! x + spec_increment r (v - data_vol_pre st ! x))"
    using G Inr by auto
  show ?thesis unfolding run using F a b by simp
qed

lemma poll_loop_any:
  "length (data_vol_pre (loop_state (poll_loop d u N fs st))) = length (data_vol_pre st) \<and>
   length (data_vol_incr (loop_state (poll_loop d u N fs st))) = length (data_vol_incr st) \<and>
   (\<forall>x. x \<notin> set (data_channels N) \<longrightarrow>
      data_vol_pre (loop_state (poll_loop d u N fs st)) ! x = data_vol_pre st ! x \<and>
      data_vol_incr (loop_state (poll_loop d u N fs st)) ! x = data_vol_incr st ! x) \<and>
   set (stdout (loop_state (poll_loop d u N fs st)))
     \<subseteq> set (stdout st) \<union> set (header_lines d u)
        \<union> {channel_line c y | c y. c \<in> set (data_channels N)}"
proof (induction fs arbitrary: st)
  case Nil
  show ?case by auto
next
  case (Cons f fs)
  note A = poll_iteration_any[of d u N f st]
  show ?case
  proof (cases "poll_iteration d u N f st")
    case (Ok st1)
    then have s1: "state_of (poll_iteration d u N f st) = st1" by simp
    have step: "poll_loop d u N (f # fs) st = poll_loop d u N fs st1"
      using Ok by simp
    note I = Cons.IH[of st1]
    have c: "set (stdout (loop_state (poll_loop d u N fs st1)))
       \<subseteq> set (stdout st) \<union> set (header_lines d u)
        \<union> {channel_line c y | c y. c \<in> set (data_channels N)}"
      using I A[unfolded s1] by blast
    show ?thesis unfolding step using I A[unfolded s1] c by simp
  next
    case (Raise e st1)
    then have s1: "state_of (poll_iteration d u N f st) = st1" by simp
    have step: "loop_state (poll_loop d u N (f # fs) st) = st1"
      using Raise by simp
    show ?thesis unfolding step using A[unfolded s1] by simp
  qed
qed

subsection \<open>Printed lines, and a zero reference\<close>

lemma init_channels_any:
  "data_vol_incr (state_of (init_channels f cs st)) = data_vol_incr st \<and>
   stdout (state_of (init_channels f cs st)) = stdout st \<and>
   length (data_vol_pre (state_of (init_channels f cs st))) = length (data_vol_pre st)"
  by (induction cs arbitrary: st) (auto split: sum.splits)

lemma str_nat_digit: "n < 10 \<Longrightarrow> str_nat n = [digit_char n]"
  by (subst str_nat.simps) simp

lemma digit_char_zero_iff: "c < 8 \<Longrightarrow> digit_char c = CHR ''0'' \<longleftrightarrow> c = 0"
proof -
  assume "c < 8"
  then have "c = 0 \<or> c = 1 \<or> c = 2 \<or> c = 3 \<or> c = 4 \<or> c = 5 \<or> c = 6 \<or> c = 7"
    by arith
  then show ?thesis
    by (auto simp: digit_char_def)
qed

lemma channel_line_zero_neq:
  assumes "c \<in> set (data_channels N)"
  shows "channel_line 0 y \<noteq> channel_line c x"
proof -
  have c: "1 \<le> c" "c < 8" using data_channels_bound[OF assms] by simp_all
  then have "digit_char c \<noteq> CHR ''0''" using digit_char_zero_iff[of c] by simp
  moreover have "str_nat c = [digit_char c]" "str_nat 0 = [digit_char 0]"
    using c by (simp_all add: str_nat_digit)
  moreover have "digit_char 0 = CHR ''0''" by (simp add: digit_char_def)
  ultimately show ?thesis
    by (simp add: channel_line_def)
qed

lemma channel_line_not_header: "channel_line c y \<notin> set (header_lines d u)"
  by (simp add: channel_line_def header_lines_def reset_cursor_def)

lemma channel_line_not_error: "channel_line c y \<noteq> '' '' @ msg" "channel_line c y \<noteq> ''''"
  by (simp_all add: channel_line_def)

lemma data_channels_Cons: "2 \<le> N \<Longrightarrow> data_channels N = 1 # range_py 2 (high_channel N + 1)"
  by (simp add: range_py_def low_channel_def high_channel_def upto_rec1)

lemma poll_iteration_zero_reference:
  assumes "length (data_vol_pre st) = 8" "length (data_vol_incr st) = 8"
    and "2 \<le> N" "f 0 = Inr 0" "f 1 = Inr v"
  shows "\<exists>st'. poll_iteration d u N f st = Raise ZeroDivisionError st' \<and>
     stdout st' = stdout st @ header_lines d u"
proof -
  let ?st0 = "st\<lparr>stdout := stdout st @ header_lines d u\<rparr>"
  have "channel_update 0 (0 * tolerance_ratio) 1 v ?st0 =
     Raise ZeroDivisionError (?st0\<lparr>data_vol_incr := (data_vol_incr ?st0)
            [1 := data_vol_incr ?st0 ! 1 + (v - data_vol_pre ?st0 ! 1)]\<rparr>)"
    by (rule channel_update_zero) (simp_all add: assms)
  then show ?thesis
    using assms by (simp add: poll_iteration_def Let_def data_channels_Cons)
qed



subsection \<open>Sessions with any outcome\<close>

lemma handle_exn_state:
  "data_vol_incr (snd (handle_exn e st)) = data_vol_incr st \<and>
   data_vol_pre (snd (handle_exn e st)) = data_vol_pre st \<and>
   set (stdout (snd (handle_exn e st))) \<subseteq> set (stdout st) \<union> {''''} \<union> {'' '' @ msg | msg. True}"
  by (cases e) auto

lemma session_any:
  "data_vol_incr (snd (session d u N f_init fs)) ! 0 = 0 \<and>
   data_vol_pre (snd (session d u N f_init fs)) ! 0
     = data_vol_pre (state_of (init_channels f_init (all_channels N) initial_state)) ! 0 \<and>
   set (stdout (snd (session d u N f_init fs)))
     \<subseteq> set (header_lines d u) \<union> {channel_line c y | c y. c \<in> set (data_channels N)}
        \<union> {''''} \<union> {'' '' @ msg | msg. True}"
proof -
  note I = init_channels_any[of f_init "all_channels N" initial_state]
  have z: "data_vol_incr initial_state ! 0 = 0" by (rule initial_incr_zero) simp
  show ?thesis
  proof (cases "init_channels f_init (all_channels N) initial_state")
    case (Raise e st0)
    then have s0: "state_of (init_channels f_init (all_channels N) initial_state) = st0" by simp
    have run: "session d u N f_init fs = handle_exn e st0"
      using Raise by (simp add: session_def)
    show ?thesis
      unfolding run s0 using handle_exn_state[of e st0] I[unfolded s0] z
      by (auto simp: initial_state_simps)
  next
    case (Ok st0)
    then have s0: "state_of (init_channels f_init (all_channels N) initial_state) = st0" by simp
    note L = poll_loop_any[of d u N fs st0]
    have l0: "data_vol_incr (loop_state (poll_loop d u N fs st0)) ! 0 = 0"
      "data_vol_pre (loop_state (poll_loop d u N fs st0)) ! 0 = data_vol_pre st0 ! 0"
      using L zero_not_data_channel[of N] I[unfolded s0] z by simp_all
    have l1: "set (stdout (loop_state (poll_loop d u N fs st0)))
       \<subseteq> set (header_lines d u) \<union> {channel_line c y | c y. c \<in> set (data_channels N)}"
      using L I[unfolded s0] by (simp add: initial_state_simps)
    show ?thesis
    proof (cases "poll_loop d u N fs st0")
      case (Polling st')
      then have run: "session d u N f_init fs = (Still_polling, st')"
        using Ok by (simp add: session_def)
      show ?thesis unfolding run s0 using l0 l1 Polling by auto
    next
      case (Break st')
      then have run: "session d u N f_init fs = (Loop_broke, st')"
        using Ok by (simp add: session_def)
      show ?thesis unfolding run s0 using l0 l1 Break by auto
    next
      case (Propagate e st')
      then have run: "session d u N f_init fs = handle_exn e st'"
        using Ok by (simp add: session_def)
      show ?thesis unfolding run s0 using l0 l1 Propagate handle_exn_state[of e st'] by auto
    qed
  qed
qed

lemma session_zero_reference:
  assumes init: "\<And>c. c \<in> set (all_channels N) \<Longrightarrow> f_init c = Inr (vs 0 c)"
    and reads: "\<And>i c. i < length pfs \<Longrightarrow> c \<in> set (data_channels N) \<Longrightarrow>
        (pfs ! i) c = Inr (vs (Suc i) c)"
    and ref: "\<And>i. i < length pfs \<Longrightarrow> (pfs ! i) 0 = Inr (ms i) \<and> ms i \<noteq> 0"
    and N: "2 \<le> N" and zero: "f 0 = Inr 0" and first: "f 1 = Inr v"
  shows "fst (session d u N f_init (pfs @ f # fs)) = Uncaught ZeroDivisionError"
proof -
  have pre: "\<And>c. c \<in> set (all_channels N) \<Longrightarrow>
      c < length (data_vol_pre initial_state) \<and> f_init c = Inr (vs 0 c)"
    using all_channels_bound[of _ N] init by (simp add: initial_state_simps)
  from init_channels_Ok[where a_in = f_init and cs = "all_channels N" and st = initial_state
      and vs = "vs 0", OF pre]
  obtain st0 where st0: "init_channels f_init (all_channels N) initial_state = Ok st0"
     "data_vol_incr st0 = data_vol_incr initial_state"
     "length (data_vol_pre st0) = length (data_vol_pre initial_state)"
     "\<And>c. data_vol_pre st0 ! c = (if c \<in> set (all_channels N) then vs 0 c
         else data_vol_pre initial_state ! c)"
    by blast
  have len: "length (data_vol_pre st0) = 8" "length (data_vol_incr st0) = 8"
    using st0(2,3) by (simp_all add: initial_state_simps)
  have start: "\<And>c. c \<in> set (data_channels N) \<Longrightarrow> data_vol_pre st0 ! c = vs 0 c"
    using st0(4) data_channels_subset by simp
  from poll_loop_Polling[where st = st0 and fs = pfs and N = N and vs = vs and ms = ms
      and d = d and u = u, OF len reads ref start]
  obtain st1 where st1: "poll_loop d u N pfs st0 = Polling st1"
     "length (data_vol_pre st1) = 8" "length (data_vol_incr st1) = 8"
    by blast
  from poll_iteration_zero_reference[OF st1(2) st1(3) N zero first, of d u]
  obtain st2 where st2: "poll_iteration d u N f st1 = Raise ZeroDivisionError st2"
    by blast
  have "poll_loop d u N (pfs @ f # fs) st0 = Propagate ZeroDivisionError st2"
    by (simp add: poll_loop_append st1(1) st2)
  then show ?thesis
    by (simp add: session_def st0(1))
qed


subsection \<open>Any arithmetic\<close>

lemma channel_line_exact: "channel_line_fl exact_arith c x = channel_line c x"
  by (simp add: channel_line_fl_def channel_line_def exact_arith_def)

lemma channel_update_exact:
  "channel_update_fl exact_arith m t c v st = channel_update m t c v st"
  by (simp add: channel_update_fl_def channel_update_def channel_line_exact Let_def)
     (simp add: exact_arith_def)

lemma poll_channels_exact:
  "poll_channels_fl exact_arith f m t cs st = poll_channels f m t cs st"
  by (induction cs arbitrary: st)
     (simp_all add: channel_update_exact split: sum.splits gen_outcome.splits)

lemma poll_iteration_exact:
  "poll_iteration_fl exact_arith d u N f st = poll_iteration d u N f st"
  by (simp add: poll_iteration_fl_def poll_iteration_def poll_channels_exact Let_def
      split: sum.splits)
     (simp add: exact_arith_def)

lemma channel_update_fl_accumulator:
  assumes "c < length (data_vol_pre st)" "c < length (data_vol_incr st)"
  shows "data_vol_incr (state_of (channel_update_fl fl m (f_mul fl m (c_0_9 fl)) c v st)) ! c
     = contract_accumulator fl m (data_vol_incr st ! c) (data_vol_pre st ! c) v"
  using assms
  by (simp add: channel_update_fl_def contract_accumulator_def Let_def)

lemma channel_update_fl_Ok:
  assumes "c < length (data_vol_pre st)" "c < length (data_vol_incr st)" "\<not> f_is_zero fl m"
  shows "channel_update_fl fl m (f_mul fl m (c_0_9 fl)) c v st =
     Ok \<lparr>data_vol_pre = (data_vol_pre st)[c := v],
         data_vol_incr = (data_vol_incr st)
            [c := contract_accumulator fl m (data_vol_incr st ! c) (data_vol_pre st ! c) v],
         stdout = stdout st @
            [channel_line_fl fl c (contract_angle fl m
               (contract_accumulator fl m (data_vol_incr st ! c) (data_vol_pre st ! c) v))]\<rparr>"
  using assms
  by (simp add: channel_update_fl_def contract_accumulator_def contract_angle_def Let_def)

lemma poll_channels_fl_Ok:
  assumes "distinct cs"
    and "\<And>c. c \<in> set cs \<Longrightarrow> c < length (data_vol_pre st) \<and> c < length (data_vol_incr st) \<and> a_in c = Inr (vs c)"
    and "\<not> f_is_zero fl m"
  shows "\<exists>st'. poll_channels_fl fl a_in m (f_mul fl m (c_0_9 fl)) cs st = Ok st' \<and>
     length (data_vol_pre st') = length (data_vol_pre st) \<and>
     length (data_vol_incr st') = length (data_vol_incr st) \<and>
     (\<forall>c. data_vol_pre st' ! c = (if c \<in> set cs then vs c else data_vol_pre st ! c)) \<and>
     (\<forall>c. data_vol_incr st' ! c =
        (if c \<in> set cs
         then contract_accumulator fl m (data_vol_incr st ! c) (data_vol_pre st ! c) (vs c)
         else data_vol_incr st ! c)) \<and>
     stdout st' = stdout st @
       map (\<lambda>c. channel_line_fl fl c (contract_angle fl m
              (contract_accumulator fl m (data_vol_incr st ! c) (data_vol_pre st ! c) (vs c)))) cs"
  using assms
proof (induction cs arbitrary: st)
  case Nil
  then show ?case by simp
next
  case (Cons c rest)
  let ?st1 = "\<lparr>data_vol_pre = (data_vol_pre st)[c := vs c],
         data_vol_incr = (data_vol_incr st)
            [c := contract_accumulator fl m (data_vol_incr st ! c) (data_vol_pre st ! c) (vs c)],
         stdout = stdout st @
            [channel_line_fl fl c (contract_angle fl m
               (contract_accumulator fl m (data_vol_incr st ! c) (data_vol_pre st ! c) (vs c)))]\<rparr>"
  have c: "c < length (data_vol_pre st)" "c < length (data_vol_incr st)" "a_in c = Inr (vs c)"
    using Cons.prems(2)[of c] by simp_all
  have upd: "channel_update_fl fl m (f_mul fl m (c_0_9 fl)) c (vs c) st = Ok ?st1"
    using channel_update_fl_Ok[OF c(1) c(2) Cons.prems(3)] .
  have step: "poll_channels_fl fl a_in m (f_mul fl m (c_0_9 fl)) (c # rest) st =
      poll_channels_fl fl a_in m (f_mul fl m (c_0_9 fl)) rest ?st1"
    by (simp add: c(3) upd)
  have d: "distinct rest" "c \<notin> set rest" using Cons.prems(1) by simp_all
  have pre: "\<And>c'. c' \<in> set rest \<Longrightarrow> c' < length (data_vol_pre ?st1) \<and>
      c' < length (data_vol_incr ?st1) \<and> a_in c' = Inr (vs c')"
    using Cons.prems(2) by simp
  from Cons.IH[OF d(1) pre Cons.prems(3)]
  obtain st' where st': "poll_channels_fl fl a_in m (f_mul fl m (c_0_9 fl)) rest ?st1 = Ok st'"
     "length (data_vol_pre st') = length (data_vol_pre ?st1)"
     "length (data_vol_incr st') = length (data_vol_incr ?st1)"
     "\<And>x. data_vol_pre st' ! x = (if x \<in> set rest then vs x else data_vol_pre ?st1 ! x)"
     "\<And>x. data_vol_incr st' ! x =
        (if x \<in> set rest
         then contract_accumulator fl m (data_vol_incr ?st1 ! x) (data_vol_pre ?st1 ! x) (vs x)
         else data_vol_incr ?st1 ! x)"
     "stdout st' = stdout ?st1 @
       map (\<lambda>x. channel_line_fl fl x (contract_angle fl m
              (contract_accumulator fl m (data_vol_incr ?st1 ! x) (data_vol_pre ?st1 ! x) (vs x))))
           rest"
    by blast
  have neq: "\<And>x. x \<in> set rest \<Longrightarrow> x \<noteq> c" using d(2) by auto
  have p1: "\<And>x. data_vol_pre st' ! x = (if x \<in> set (c # rest) then vs x else data_vol_pre st ! x)"
    using st'(4) c(1) d(2) by (auto simp: nth_list_update)
  have p2: "\<And>x. data_vol_incr st' ! x =
        (if x \<in> set (c # rest)
         then contract_accumulator fl m (data_vol_incr st ! x) (data_vol_pre st ! x) (vs x)
         else data_vol_incr st ! x)"
    using st'(5) c(1) c(2) d(2) by (auto simp: nth_list_update)
  have p3: "stdout st' = stdout st @
       map (\<lambda>x. channel_line_fl fl x (contract_angle fl m
              (contract_accumulator fl m (data_vol_incr st ! x) (data_vol_pre st ! x) (vs x))))
           (c # rest)"
  proof -
    have "map (\<lambda>x. channel_line_fl fl x (contract_angle fl m
              (contract_accumulator fl m (data_vol_incr ?st1 ! x) (data_vol_pre ?st1 ! x) (vs x))))
           rest
      = map (\<lambda>x. channel_line_fl fl x (contract_angle fl m
              (contract_accumulator fl m (data_vol_incr st ! x) (data_vol_pre st ! x) (vs x))))
           rest"
    proof (rule map_cong[OF refl])
      fix x assume "x \<in> set rest"
      then have "x \<noteq> c" by (rule neq)
      then show "channel_line_fl fl x (contract_angle fl m
              (contract_accumulator fl m (data_vol_incr ?st1 ! x) (data_vol_pre ?st1 ! x) (vs x)))
        = channel_line_fl fl x (contract_angle fl m
              (contract_accumulator fl m (data_vol_incr st ! x) (data_vol_pre st ! x) (vs x)))"
        by simp
    qed
    with st'(6) show ?thesis by simp
  qed
  show ?case
    using step st'(1,2,3) p1 p2 p3 by simp
qed

lemma poll_iteration_fl_Ok:
  assumes len: "length (data_vol_pre st) = 8" "length (data_vol_incr st) = 8"
    and reads: "\<And>c. c \<in> set (data_channels N) \<Longrightarrow> a_in c = Inr (vs c)"
    and ref: "a_in 0 = Inr m" "\<not> f_is_zero fl m"
  shows "\<exists>st'. poll_iteration_fl fl d u N a_in st = Ok st' \<and>
     length (data_vol_pre st') = 8 \<and> length (data_vol_incr st') = 8 \<and>
     (\<forall>c. data_vol_pre st' ! c = (if c \<in> set (data_channels N) then vs c else data_vol_pre st ! c)) \<and>
     (\<forall>c. data_vol_incr st' ! c =
        (if c \<in> set (data_channels N)
         then contract_accumulator fl m (data_vol_incr st ! c) (data_vol_pre st ! c) (vs c)
         else data_vol_incr st ! c)) \<and>
     stdout st' = stdout st @ header_lines d u @
       map (\<lambda>c. channel_line_fl fl c (contract_angle fl m (data_vol_incr st' ! c)))
         (data_channels N)"
proof -
  let ?st0 = "st\<lparr>stdout := stdout st @ header_lines d u\<rparr>"
  have pre: "\<And>c. c \<in> set (data_channels N) \<Longrightarrow>
      c < length (data_vol_pre ?st0) \<and> c < length (data_vol_incr ?st0) \<and> a_in c = Inr (vs c)"
    using data_channels_bound[of _ N] len reads by fastforce
  from poll_channels_fl_Ok[where fl = fl and a_in = a_in and vs = vs and m = m
      and cs = "data_channels N" and st = ?st0, OF data_channels_distinct pre ref(2)]
  obtain st' where st':
     "poll_channels_fl fl a_in m (f_mul fl m (c_0_9 fl)) (data_channels N) ?st0 = Ok st'"
     "length (data_vol_pre st') = length (data_vol_pre ?st0)"
     "length (data_vol_incr st') = length (data_vol_incr ?st0)"
     "\<And>c. data_vol_pre st' ! c = (if c \<in> set (data_channels N) then vs c else data_vol_pre ?st0 ! c)"
     "\<And>c. data_vol_incr st' ! c =
        (if c \<in> set (data_channels N)
         then contract_accumulator fl m (data_vol_incr ?st0 ! c) (data_vol_pre ?st0 ! c) (vs c)
         else data_vol_incr ?st0 ! c)"
     "stdout st' = stdout ?st0 @
       map (\<lambda>c. channel_line_fl fl c (contract_angle fl m
              (contract_accumulator fl m (data_vol_incr ?st0 ! c) (data_vol_pre ?st0 ! c) (vs c))))
        (data_channels N)"
    by blast
  have run: "poll_iteration_fl fl d u N a_in st = Ok st'"
    using st'(1) ref(1) by (simp add: poll_iteration_fl_def Let_def)
  have lines: "map (\<lambda>c. channel_line_fl fl c (contract_angle fl m
              (contract_accumulator fl m (data_vol_incr ?st0 ! c) (data_vol_pre ?st0 ! c) (vs c))))
        (data_channels N)
     = map (\<lambda>c. channel_line_fl fl c (contract_angle fl m (data_vol_incr st' ! c)))
        (data_channels N)"
    by (rule map_cong[OF refl]) (simp add: st'(5))
  have out: "stdout st' = stdout st @ header_lines d u @
       map (\<lambda>c. channel_line_fl fl c (contract_angle fl m (data_vol_incr st' ! c)))
         (data_channels N)"
    using st'(6) lines by simp
  show ?thesis
    using run st'(2,3,4,5) len out by simp
qed




section \<open>The claims\<close>

subsection \<open>C1: the contract of one update\<close>

text \<open>
  C1. In an iteration whose reference reading on channel 0 is \<open>m\<close>, the tolerance is the
  product of \<open>m\<close> and \<^verbatim>\<open>0.9\<close>. An update of a channel with previous voltage \<open>p\<close> and sample
  \<open>v\<close> takes the delta \<open>d = v - p\<close> and stores as the accumulator: the accumulator plus
  \<open>d - m\<close> if \<open>d\<close> is above the tolerance, else the accumulator plus \<open>d + m\<close> if \<open>d\<close> is
  below \<^verbatim>\<open>-1.0\<close> times the tolerance, else the accumulator plus \<open>d\<close>. When \<open>m\<close> is not zero
  the iteration runs to its end, every data channel is updated in this way, and the
  line printed for a channel shows its new accumulator divided by \<open>m\<close>, multiplied by 2
  and by \<^verbatim>\<open>math.pi\<close>. Every operation, comparison and constant is the one of the
  arithmetic \<open>fl\<close>, which is arbitrary: the statement holds of Python's floats, where the
  product and the difference are rounded before they are compared. (When \<open>m\<close> is zero
  the accumulator of the first data channel is still updated, and the division of line
  135 then raises.)
\<close>

theorem unwrap_update_contract:
  assumes len: "length (data_vol_pre st) = 8" "length (data_vol_incr st) = 8"
    and ref: "a_in 0 = Inr m"
    and reads: "\<And>c. c \<in> set (data_channels N) \<Longrightarrow> a_in c = Inr (vs c)"
  shows "(\<forall>c v. c < 8 \<longrightarrow>
            data_vol_incr (state_of (channel_update_fl fl m (f_mul fl m (c_0_9 fl)) c v st)) ! c =
              (if f_gt fl (f_sub fl v (data_vol_pre st ! c)) (f_mul fl m (c_0_9 fl))
               then f_add fl (data_vol_incr st ! c)
                      (f_sub fl (f_sub fl v (data_vol_pre st ! c)) m)
               else if f_lt fl (f_sub fl v (data_vol_pre st ! c))
                         (f_mul fl (c_neg_1_0 fl) (f_mul fl m (c_0_9 fl)))
               then f_add fl (data_vol_incr st ! c)
                      (f_add fl (f_sub fl v (data_vol_pre st ! c)) m)
               else f_add fl (data_vol_incr st ! c) (f_sub fl v (data_vol_pre st ! c)))) \<and>
         (\<not> f_is_zero fl m \<longrightarrow>
            (\<exists>st'. poll_iteration_fl fl d u N a_in st = Ok st' \<and>
               (\<forall>c \<in> set (data_channels N).
                  data_vol_incr st' ! c =
                    (if f_gt fl (f_sub fl (vs c) (data_vol_pre st ! c)) (f_mul fl m (c_0_9 fl))
                     then f_add fl (data_vol_incr st ! c)
                            (f_sub fl (f_sub fl (vs c) (data_vol_pre st ! c)) m)
                     else if f_lt fl (f_sub fl (vs c) (data_vol_pre st ! c))
                               (f_mul fl (c_neg_1_0 fl) (f_mul fl m (c_0_9 fl)))
                     then f_add fl (data_vol_incr st ! c)
                            (f_add fl (f_sub fl (vs c) (data_vol_pre st ! c)) m)
                     else f_add fl (data_vol_incr st ! c)
                            (f_sub fl (vs c) (data_vol_pre st ! c)))) \<and>
               stdout st' = stdout st @ header_lines d u @
                 map (\<lambda>c. ''Channel('' @ str_nat c @ '') Data: '' @
                        fmt_6f fl (f_mul fl (f_mul fl (f_div fl (data_vol_incr st' ! c) m)
                                     (c_2 fl)) (c_pi fl)))
                     (data_channels N)))"
proof (intro conjI allI impI)
  fix c :: nat and v
  assume "c < 8"
  then have "data_vol_incr (state_of (channel_update_fl fl m (f_mul fl m (c_0_9 fl)) c v st)) ! c
     = contract_accumulator fl m (data_vol_incr st ! c) (data_vol_pre st ! c) v"
    using len by (intro channel_update_fl_accumulator) simp_all
  then show "data_vol_incr (state_of (channel_update_fl fl m (f_mul fl m (c_0_9 fl)) c v st)) ! c =
              (if f_gt fl (f_sub fl v (data_vol_pre st ! c)) (f_mul fl m (c_0_9 fl))
               then f_add fl (data_vol_incr st ! c)
                      (f_sub fl (f_sub fl v (data_vol_pre st ! c)) m)
               else if f_lt fl (f_sub fl v (data_vol_pre st ! c))
                         (f_mul fl (c_neg_1_0 fl) (f_mul fl m (c_0_9 fl)))
               then f_add fl (data_vol_incr st ! c)
                      (f_add fl (f_sub fl v (data_vol_pre st ! c)) m)
               else f_add fl (data_vol_incr st ! c) (f_sub fl v (data_vol_pre st ! c)))"
    by (simp add: contract_accumulator_def)
next
  assume m: "\<not> f_is_zero fl m"
  from poll_iteration_fl_Ok[where fl = fl and st = st and N = N and a_in = a_in and vs = vs
      and m = m and d = d and u = u, OF len reads ref m]
  obtain st' where st': "poll_iteration_fl fl d u N a_in st = Ok st'"
     "\<And>c. data_vol_incr st' ! c =
        (if c \<in> set (data_channels N)
         then contract_accumulator fl m (data_vol_incr st ! c) (data_vol_pre st ! c) (vs c)
         else data_vol_incr st ! c)"
     "stdout st' = stdout st @ header_lines d u @
       map (\<lambda>c. channel_line_fl fl c (contract_angle fl m (data_vol_incr st' ! c)))
         (data_channels N)"
    by blast
  have acc: "\<forall>c \<in> set (data_channels N).
                  data_vol_incr st' ! c =
                    (if f_gt fl (f_sub fl (vs c) (data_vol_pre st ! c)) (f_mul fl m (c_0_9 fl))
                     then f_add fl (data_vol_incr st ! c)
                            (f_sub fl (f_sub fl (vs c) (data_vol_pre st ! c)) m)
                     else if f_lt fl (f_sub fl (vs c) (data_vol_pre st ! c))
                               (f_mul fl (c_neg_1_0 fl) (f_mul fl m (c_0_9 fl)))
                     then f_add fl (data_vol_incr st ! c)
                            (f_add fl (f_sub fl (vs c) (data_vol_pre st ! c)) m)
                     else f_add fl (data_vol_incr st ! c)
                            (f_sub fl (vs c) (data_vol_pre st ! c)))"
    by (simp add: st'(2) contract_accumulator_def)
  have out: "stdout st' = stdout st @ header_lines d u @
                 map (\<lambda>c. ''Channel('' @ str_nat c @ '') Data: '' @
                        fmt_6f fl (f_mul fl (f_mul fl (f_div fl (data_vol_incr st' ! c) m)
                                     (c_2 fl)) (c_pi fl)))
                     (data_channels N)"
    unfolding st'(3) by (simp add: channel_line_fl_def contract_angle_def)
  from st'(1) acc out
  show "\<exists>st'. poll_iteration_fl fl d u N a_in st = Ok st' \<and>
               (\<forall>c \<in> set (data_channels N).
                  data_vol_incr st' ! c =
                    (if f_gt fl (f_sub fl (vs c) (data_vol_pre st ! c)) (f_mul fl m (c_0_9 fl))
                     then f_add fl (data_vol_incr st ! c)
                            (f_sub fl (f_sub fl (vs c) (data_vol_pre st ! c)) m)
                     else if f_lt fl (f_sub fl (vs c) (data_vol_pre st ! c))
                               (f_mul fl (c_neg_1_0 fl) (f_mul fl m (c_0_9 fl)))
                     then f_add fl (data_vol_incr st ! c)
                            (f_add fl (f_sub fl (vs c) (data_vol_pre st ! c)) m)
                     else f_add fl (data_vol_incr st ! c)
                            (f_sub fl (vs c) (data_vol_pre st ! c)))) \<and>
               stdout st' = stdout st @ header_lines d u @
                 map (\<lambda>c. ''Channel('' @ str_nat c @ '') Data: '' @
                        fmt_6f fl (f_mul fl (f_mul fl (f_div fl (data_vol_incr st' ! c) m)
                                     (c_2 fl)) (c_pi fl)))
                     (data_channels N)"
    by blast
qed

theorem unwrap_update_contract_witness:
  "data_vol_incr (state_of (channel_update_fl exact_arith 5
      (f_mul exact_arith 5 (c_0_9 exact_arith)) 1 0.1
      (initial_state\<lparr>data_vol_pre := [5, 4.8, 0.1, 1, 0, 0, 0, 0]\<rparr>))) ! 1 = 0.3 \<and>
   data_vol_incr (state_of (channel_update_fl
      (exact_arith\<lparr>c_0_9 := 8106479329266893 / 9007199254740992\<rparr>) 1
      (f_mul (exact_arith\<lparr>c_0_9 := 8106479329266893 / 9007199254740992\<rparr>) 1
         (c_0_9 (exact_arith\<lparr>c_0_9 := 8106479329266893 / 9007199254740992\<rparr>)))
      1 (8106479329266893 / 9007199254740992) initial_state)) ! 1
     = 8106479329266893 / 9007199254740992 \<and>
   (\<exists>st'. poll_iteration_fl exact_arith ''dev'' ''id'' 4 (\<lambda>c. Inr ([5, 0.1, 4.8, 1] ! c))
        (initial_state\<lparr>data_vol_pre := [5, 4.8, 0.1, 1, 0, 0, 0, 0]\<rparr>) = Ok st' \<and>
      data_vol_incr st' ! 1 = 0.3 \<and> data_vol_incr st' ! 2 = - 0.3 \<and>
      data_vol_incr st' ! 3 = 0 \<and>
      stdout st' = header_lines ''dev'' ''id'' @
        [''Channel(1) Data: '' @ format_6f (0.3 / 5 * 2 * pi),
         ''Channel(2) Data: '' @ format_6f (- 0.3 / 5 * 2 * pi),
         ''Channel(3) Data: '' @ format_6f (0 / 5 * 2 * pi)])"
proof -
  let ?st = "initial_state\<lparr>data_vol_pre := [5, 4.8, 0.1, 1, 0, 0, 0, 0]\<rparr>"
  let ?f = "(\<lambda>c. Inr ([5, 0.1, 4.8, 1] ! c)) :: frame"
  let ?fl = "exact_arith\<lparr>c_0_9 := 8106479329266893 / 9007199254740992\<rparr>"
  have len: "length (data_vol_pre ?st) = 8" "length (data_vol_incr ?st) = 8"
    by (simp_all add: initial_state_def)
  have ref: "?f 0 = Inr 5" by simp
  have reads: "\<And>c. ?f c = Inr ([5, 0.1, 4.8, 1] ! c)"
    by simp
  have dc: "data_channels 4 = [1, 2, 3]"
    by (simp add: range_py_def low_channel_def high_channel_def upto_rec1)
  have s: "str_nat 1 = ''1''" "str_nat 2 = ''2''" "str_nat 3 = ''3''"
    by (simp_all add: str_nat_digit digit_char_def)
  note T = unwrap_update_contract[where fl = exact_arith and st = ?st and a_in = ?f and m = 5
      and N = 4 and vs = "\<lambda>c. [5, 0.1, 4.8, 1] ! c" and d = "''dev''" and u = "''id''",
      OF len ref reads]
  from T[THEN conjunct1, rule_format, where c = 1 and v = "0.1"]
  have A: "data_vol_incr (state_of (channel_update_fl exact_arith 5
      (f_mul exact_arith 5 (c_0_9 exact_arith)) 1 0.1 ?st)) ! 1 = 0.3"
    by (simp add: initial_state_def exact_arith_def tolerance_ratio_def)
  have len0: "length (data_vol_pre initial_state) = 8" "length (data_vol_incr initial_state) = 8"
    by (simp_all add: initial_state_def)
  have ref0: "(\<lambda>c. Inr 1) (0::nat) = (Inr 1 :: exn + real)" by simp
  have reads0: "\<And>c. (\<lambda>c. Inr 1) c = (Inr ((\<lambda>c. 1) (c::nat)) :: exn + real)"
    by simp
  note T0 = unwrap_update_contract[where fl = ?fl and st = initial_state and a_in = "\<lambda>c. Inr 1"
      and m = 1 and N = 4 and vs = "\<lambda>c. 1" and d = "''dev''" and u = "''id''",
      OF len0 ref0 reads0]
  from T0[THEN conjunct1, rule_format, where c = 1 and v = "8106479329266893 / 9007199254740992"]
  have B: "data_vol_incr (state_of (channel_update_fl ?fl 1 (f_mul ?fl 1 (c_0_9 ?fl))
      1 (8106479329266893 / 9007199254740992) initial_state)) ! 1
     = 8106479329266893 / 9007199254740992"
    by (simp add: initial_state_def exact_arith_def)
  have z: "\<not> f_is_zero exact_arith 5" by (simp add: exact_arith_def)
  from T[THEN conjunct2, rule_format, OF z]
  obtain st' where C: "poll_iteration_fl exact_arith ''dev'' ''id'' 4 ?f ?st = Ok st'"
      "\<forall>c \<in> set (data_channels 4).
         data_vol_incr st' ! c =
           (if f_gt exact_arith (f_sub exact_arith ([5, 0.1, 4.8, 1] ! c) (data_vol_pre ?st ! c))
                 (f_mul exact_arith 5 (c_0_9 exact_arith))
            then f_add exact_arith (data_vol_incr ?st ! c)
                   (f_sub exact_arith (f_sub exact_arith ([5, 0.1, 4.8, 1] ! c)
                      (data_vol_pre ?st ! c)) 5)
            else if f_lt exact_arith (f_sub exact_arith ([5, 0.1, 4.8, 1] ! c)
                      (data_vol_pre ?st ! c))
                      (f_mul exact_arith (c_neg_1_0 exact_arith)
                         (f_mul exact_arith 5 (c_0_9 exact_arith)))
            then f_add exact_arith (data_vol_incr ?st ! c)
                   (f_add exact_arith (f_sub exact_arith ([5, 0.1, 4.8, 1] ! c)
                      (data_vol_pre ?st ! c)) 5)
            else f_add exact_arith (data_vol_incr ?st ! c)
                   (f_sub exact_arith ([5, 0.1, 4.8, 1] ! c) (data_vol_pre ?st ! c)))"
      "stdout st' = stdout ?st @ header_lines ''dev'' ''id'' @
         map (\<lambda>c. ''Channel('' @ str_nat c @ '') Data: '' @
                fmt_6f exact_arith (f_mul exact_arith
                  (f_mul exact_arith (f_div exact_arith (data_vol_incr st' ! c) 5)
                     (c_2 exact_arith)) (c_pi exact_arith)))
             (data_channels 4)"
    by blast
  have D: "data_vol_incr st' ! 1 = 0.3" "data_vol_incr st' ! 2 = - 0.3" "data_vol_incr st' ! 3 = 0"
    using C(2) by (simp_all add: dc initial_state_def exact_arith_def tolerance_ratio_def)
  have E: "stdout st' = header_lines ''dev'' ''id'' @
        [''Channel(1) Data: '' @ format_6f (0.3 / 5 * 2 * pi),
         ''Channel(2) Data: '' @ format_6f (- 0.3 / 5 * 2 * pi),
         ''Channel(3) Data: '' @ format_6f (0 / 5 * 2 * pi)]"
    unfolding C(3) dc by (simp add: D s initial_state_def exact_arith_def del: One_nat_def)
  show ?thesis using A B C(1) D E by blast
qed

subsection \<open>C2: steps within the tolerance\<close>



subsection \<open>C3: a sample equal to the previous one\<close>

text \<open>
  The claim ranges over every \<open>data_vol_max\<close>. With a negative reference the tolerance
  \<open>0.9 * data_vol_max\<close> is negative, a delta of zero is above it, and the first branch
  subtracts the reference: with previous voltage \<open>1.0\<close>, sample \<open>1.0\<close> and reference
  \<open>-5.0\<close> the accumulator goes from \<open>0\<close> to \<open>5\<close>.
\<close>

theorem zero_delta_negative_reference:
  "data_vol_incr (state_of (channel_update (- 5) (- 5 * tolerance_ratio) 1 1.0
      (initial_state\<lparr>data_vol_pre := [- 5, 1.0, 0, 0, 0, 0, 0, 0]\<rparr>))) ! 1 = 5 \<and>
   data_vol_incr (state_of (channel_update (- 5) (- 5 * tolerance_ratio) 1 1.0
      (initial_state\<lparr>data_vol_pre := [- 5, 1.0, 0, 0, 0, 0, 0, 0]\<rparr>))) ! 1 \<noteq>
   data_vol_incr (initial_state\<lparr>data_vol_pre := [- 5, 1.0, 0, 0, 0, 0, 0, 0]\<rparr>) ! 1"
  by (simp add: channel_update_def initial_state_def tolerance_ratio_def Let_def)

text \<open>
  C3, amended. For every channel state and every reference that is not negative, an
  update whose sample equals the previous voltage leaves the accumulators and the
  previous voltages as they were; when the reference is positive the update prints
  the angle of the unchanged accumulator. With previous \<open>1.0\<close>, sample \<open>1.0\<close> and reference
  \<open>5.0\<close> the accumulated delta is \<open>0\<close>.
\<close>

theorem zero_delta_idempotent:
  assumes "c < length (data_vol_pre st)" "c < length (data_vol_incr st)"
    and "0 \<le> m" and "v = data_vol_pre st ! c"
  shows "data_vol_incr (state_of (channel_update m (m * tolerance_ratio) c v st)) =
           data_vol_incr st \<and>
         data_vol_pre (state_of (channel_update m (m * tolerance_ratio) c v st)) =
           data_vol_pre st \<and>
         (m \<noteq> 0 \<longrightarrow>
            channel_update m (m * tolerance_ratio) c v st =
              Ok (st\<lparr>stdout := stdout st @
                    [channel_line c (data_vol_incr st ! c / m * 2 * pi)]\<rparr>))"
  using assms
  by (simp add: channel_update_def tolerance_ratio_def Let_def)

theorem zero_delta_idempotent_witness:
  "data_vol_incr (state_of (channel_update 5.0 (5.0 * tolerance_ratio) 1 1.0
      (initial_state\<lparr>data_vol_pre := [5.0, 1.0, 0, 0, 0, 0, 0, 0]\<rparr>))) =
     data_vol_incr (initial_state\<lparr>data_vol_pre := [5.0, 1.0, 0, 0, 0, 0, 0, 0]\<rparr>) \<and>
   channel_update 5.0 (5.0 * tolerance_ratio) 1 1.0
      (initial_state\<lparr>data_vol_pre := [5.0, 1.0, 0, 0, 0, 0, 0, 0]\<rparr>) =
     Ok (initial_state\<lparr>data_vol_pre := [5.0, 1.0, 0, 0, 0, 0, 0, 0],
           stdout := [channel_line 1 (0 / 5.0 * 2 * pi)]\<rparr>)"
  using zero_delta_idempotent[where c = 1 and m = "5.0" and v = "1.0"
      and st = "initial_state\<lparr>data_vol_pre := [5.0, 1.0, 0, 0, 0, 0, 0, 0]\<rparr>"]
  by (simp add: initial_state_def)

subsection \<open>C4: jumps beyond the tolerance\<close>

text \<open>
  The example of the claim is not a jump beyond the tolerance: with previous voltage
  \<open>9.0\<close>, sample \<open>0.5\<close> and reference \<open>10.0\<close> the delta \<open>-8.5\<close> is not below \<open>-9.0\<close>, the
  third branch runs and the accumulator receives \<open>-8.5\<close>, not \<open>-8.5 + 10.0\<close>. And a
  downward jump beyond the tolerance is not always raised by the reference: with
  previous voltage \<open>0.0\<close>, sample \<open>-1.0\<close> and reference \<open>-5.0\<close> the tolerance is \<open>-4.5\<close>, the
  delta \<open>-1.0\<close> is below \<open>4.5\<close> but also above \<open>-4.5\<close>, line 129 is tested first and the
  reference is subtracted. (The values of both examples are the same in Python's
  floats.)
\<close>

theorem jumps_not_compensated_as_claimed:
  "data_vol_incr (state_of (channel_update 10.0 (10.0 * tolerance_ratio) 1 0.5
      (initial_state\<lparr>data_vol_pre := [10.0, 9.0, 0, 0, 0, 0, 0, 0]\<rparr>))) ! 1 = 0.5 - 9.0 \<and>
   data_vol_incr (state_of (channel_update 10.0 (10.0 * tolerance_ratio) 1 0.5
      (initial_state\<lparr>data_vol_pre := [10.0, 9.0, 0, 0, 0, 0, 0, 0]\<rparr>))) ! 1 \<noteq>
     0.5 - 9.0 + 10.0 \<and>
   data_vol_incr (state_of (channel_update (- 5.0) (- 5.0 * tolerance_ratio) 1 (- 1.0)
      (initial_state\<lparr>data_vol_pre := [- 5.0, 0.0, 0, 0, 0, 0, 0, 0]\<rparr>))) ! 1
     = - 1.0 - 0.0 - (- 5.0) \<and>
   data_vol_incr (state_of (channel_update (- 5.0) (- 5.0 * tolerance_ratio) 1 (- 1.0)
      (initial_state\<lparr>data_vol_pre := [- 5.0, 0.0, 0, 0, 0, 0, 0, 0]\<rparr>))) ! 1 \<noteq>
     - 1.0 - 0.0 + (- 5.0)"
  by (simp add: channel_update_def initial_state_def tolerance_ratio_def Let_def)

text \<open>
  C4, amended. In any arithmetic, hence in Python's floats: a delta above the tolerance
  is added lowered by the reference; a delta that is not above the tolerance and is
  below \<^verbatim>\<open>-1.0\<close> times the tolerance is added raised by the reference; a delta that is
  neither is added as it is, as in the example of the claim (\<open>9.0\<close> to \<open>0.5\<close> with
  reference \<open>10.0\<close>). The examples of the specification with reference \<open>5.0\<close> are
  compensated: \<open>4.8\<close> to \<open>0.1\<close> adds \<open>0.1 - 4.8 + 5.0\<close>, and \<open>0.1\<close> to \<open>4.8\<close> adds
  \<open>4.8 - 0.1 - 5.0\<close>.
\<close>

theorem wrap_compensation:
  assumes "c < length (data_vol_pre st)" "c < length (data_vol_incr st)"
  shows "(f_gt fl (f_sub fl v (data_vol_pre st ! c)) (f_mul fl m (c_0_9 fl)) \<longrightarrow>
            data_vol_incr (state_of (channel_update_fl fl m (f_mul fl m (c_0_9 fl)) c v st)) ! c =
              f_add fl (data_vol_incr st ! c) (f_sub fl (f_sub fl v (data_vol_pre st ! c)) m)) \<and>
         (\<not> f_gt fl (f_sub fl v (data_vol_pre st ! c)) (f_mul fl m (c_0_9 fl)) \<and>
          f_lt fl (f_sub fl v (data_vol_pre st ! c))
            (f_mul fl (c_neg_1_0 fl) (f_mul fl m (c_0_9 fl))) \<longrightarrow>
            data_vol_incr (state_of (channel_update_fl fl m (f_mul fl m (c_0_9 fl)) c v st)) ! c =
              f_add fl (data_vol_incr st ! c) (f_add fl (f_sub fl v (data_vol_pre st ! c)) m)) \<and>
         (\<not> f_gt fl (f_sub fl v (data_vol_pre st ! c)) (f_mul fl m (c_0_9 fl)) \<and>
          \<not> f_lt fl (f_sub fl v (data_vol_pre st ! c))
            (f_mul fl (c_neg_1_0 fl) (f_mul fl m (c_0_9 fl))) \<longrightarrow>
            data_vol_incr (state_of (channel_update_fl fl m (f_mul fl m (c_0_9 fl)) c v st)) ! c =
              f_add fl (data_vol_incr st ! c) (f_sub fl v (data_vol_pre st ! c)))"
  using assms
  by (simp add: channel_update_fl_def Let_def)

theorem wrap_compensation_witness:
  "data_vol_incr (state_of (channel_update_fl exact_arith 5.0
      (f_mul exact_arith 5.0 (c_0_9 exact_arith)) 1 0.1
      (initial_state\<lparr>data_vol_pre := [5.0, 4.8, 0, 0, 0, 0, 0, 0]\<rparr>))) ! 1 = 0.1 - 4.8 + 5.0 \<and>
   data_vol_incr (state_of (channel_update_fl exact_arith 5.0
      (f_mul exact_arith 5.0 (c_0_9 exact_arith)) 1 4.8
      (initial_state\<lparr>data_vol_pre := [5.0, 0.1, 0, 0, 0, 0, 0, 0]\<rparr>))) ! 1 = 4.8 - 0.1 - 5.0 \<and>
   data_vol_incr (state_of (channel_update_fl exact_arith 10.0
      (f_mul exact_arith 10.0 (c_0_9 exact_arith)) 1 0.5
      (initial_state\<lparr>data_vol_pre := [10.0, 9.0, 0, 0, 0, 0, 0, 0]\<rparr>))) ! 1 = 0.5 - 9.0"
proof -
  have down: "data_vol_incr (state_of (channel_update_fl exact_arith 5.0
      (f_mul exact_arith 5.0 (c_0_9 exact_arith)) 1 0.1
      (initial_state\<lparr>data_vol_pre := [5.0, 4.8, 0, 0, 0, 0, 0, 0]\<rparr>))) ! 1 = 0.1 - 4.8 + 5.0"
    using wrap_compensation[where fl = exact_arith and c = 1 and m = "5.0" and v = "0.1"
        and st = "initial_state\<lparr>data_vol_pre := [5.0, 4.8, 0, 0, 0, 0, 0, 0]\<rparr>"]
    by (simp add: initial_state_def exact_arith_def tolerance_ratio_def)
  have up: "data_vol_incr (state_of (channel_update_fl exact_arith 5.0
      (f_mul exact_arith 5.0 (c_0_9 exact_arith)) 1 4.8
      (initial_state\<lparr>data_vol_pre := [5.0, 0.1, 0, 0, 0, 0, 0, 0]\<rparr>))) ! 1 = 4.8 - 0.1 - 5.0"
    using wrap_compensation[where fl = exact_arith and c = 1 and m = "5.0" and v = "4.8"
        and st = "initial_state\<lparr>data_vol_pre := [5.0, 0.1, 0, 0, 0, 0, 0, 0]\<rparr>"]
    by (simp add: initial_state_def exact_arith_def tolerance_ratio_def)
  have none: "data_vol_incr (state_of (channel_update_fl exact_arith 10.0
      (f_mul exact_arith 10.0 (c_0_9 exact_arith)) 1 0.5
      (initial_state\<lparr>data_vol_pre := [10.0, 9.0, 0, 0, 0, 0, 0, 0]\<rparr>))) ! 1 = 0.5 - 9.0"
    using wrap_compensation[where fl = exact_arith and c = 1 and m = "10.0" and v = "0.5"
        and st = "initial_state\<lparr>data_vol_pre := [10.0, 9.0, 0, 0, 0, 0, 0, 0]\<rparr>"]
    by (simp add: initial_state_def exact_arith_def tolerance_ratio_def)
  from down up none show ?thesis by blast
qed

subsection \<open>C5: faults inside the polling loop\<close>

text \<open>
  Line 141 catches \<^verbatim>\<open>ValueError\<close>, \<^verbatim>\<open>NameError\<close> and \<^verbatim>\<open>SyntaxError\<close> only. The
  division of line 135 by a zero reference raises \<^verbatim>\<open>ZeroDivisionError\<close>, which is none
  of them and is caught neither by line 143 nor by line 146: with eight channels, first
  samples of \<open>1.0\<close> and a first iteration that reads \<open>0.0\<close> everywhere, the session ends
  with that exception uncaught, not by \<^verbatim>\<open>break\<close>.
\<close>

theorem zero_reference_not_silent:
  "fst (session ''dev'' ''id'' 8 (\<lambda>c. Inr 1.0) [\<lambda>c. Inr 0.0]) = Uncaught ZeroDivisionError \<and>
   fst (session ''dev'' ''id'' 8 (\<lambda>c. Inr 1.0) [\<lambda>c. Inr 0.0]) \<noteq> Loop_broke"
proof -
  have "fst (session ''dev'' ''id'' 8 (\<lambda>c. Inr 1.0) ([] @ (\<lambda>c. Inr 0.0) # []))
      = Uncaught ZeroDivisionError"
    by (rule session_zero_reference[where vs = "\<lambda>i c. 1.0" and ms = "\<lambda>i. 1" and v = "0.0"])
      simp_all
  then show ?thesis by simp
qed

text \<open>
  C5, amended. An exception raised inside an iteration ends the loop by \<^verbatim>\<open>break\<close>, as
  a normal exit, exactly when it is a \<^verbatim>\<open>ValueError\<close>, a \<^verbatim>\<open>NameError\<close> or a
  \<^verbatim>\<open>SyntaxError\<close>; every other exception propagates out of the loop. In particular,
  after any number of iterations without a fault, an iteration that reads a reference
  of zero and then a sample for channel 1 (the device has at least two channels) raises
  \<^verbatim>\<open>ZeroDivisionError\<close>, and the session ends with that exception uncaught.
\<close>

theorem loop_fault_handling:
  assumes init: "\<And>c. c \<in> set (all_channels N) \<Longrightarrow> f_init c = Inr (vs 0 c)"
    and reads: "\<And>i c. i < length pfs \<Longrightarrow> c \<in> set (data_channels N) \<Longrightarrow>
        (pfs ! i) c = Inr (vs (Suc i) c)"
    and ref: "\<And>i. i < length pfs \<Longrightarrow> (pfs ! i) 0 = Inr (ms i) \<and> ms i \<noteq> 0"
    and N: "2 \<le> N" and zero: "f 0 = Inr 0" and first: "f 1 = Inr v"
  shows "(\<forall>g gs st e st'. poll_iteration d u N g st = Raise e st' \<longrightarrow>
            poll_loop d u N (g # gs) st =
              (if e = ValueError \<or> e = NameError \<or> e = SyntaxError then Break st'
               else Propagate e st')) \<and>
         fst (session d u N f_init (pfs @ f # fs)) = Uncaught ZeroDivisionError"
proof (intro conjI allI impI)
  fix g gs st e st'
  assume "poll_iteration d u N g st = Raise e st'"
  then show "poll_loop d u N (g # gs) st =
              (if e = ValueError \<or> e = NameError \<or> e = SyntaxError then Break st'
               else Propagate e st')"
    by simp
next
  show "fst (session d u N f_init (pfs @ f # fs)) = Uncaught ZeroDivisionError"
    by (rule session_zero_reference[OF init reads ref N zero first])
qed

theorem loop_fault_handling_witness:
  "fst (session ''dev'' ''id'' 2 (\<lambda>c. Inr 1) ([\<lambda>c. Inr 1] @ (\<lambda>c. Inr 0) # []))
     = Uncaught ZeroDivisionError \<and>
   poll_loop ''dev'' ''id'' 2 ((\<lambda>c. Inl ValueError) # []) initial_state
     = Break (initial_state\<lparr>stdout := header_lines ''dev'' ''id''\<rparr>) \<and>
   poll_loop ''dev'' ''id'' 2 ((\<lambda>c. Inl KeyboardInterrupt) # []) initial_state
     = Propagate KeyboardInterrupt (initial_state\<lparr>stdout := header_lines ''dev'' ''id''\<rparr>)"
proof -
  have dc: "data_channels 2 = [1]"
    by (simp add: range_py_def low_channel_def high_channel_def upto_rec1)
  have init: "\<And>c. (\<lambda>c. Inr 1) c = (Inr ((\<lambda>i c. 1) (0::nat) c) :: exn + real)"
    by simp
  have reads: "\<And>i c. i < length [(\<lambda>c. Inr 1) :: frame] \<Longrightarrow> c \<in> set (data_channels 2) \<Longrightarrow>
        ([(\<lambda>c. Inr 1) :: frame] ! i) c = Inr ((\<lambda>i c. 1) (Suc i) c)"
    by simp
  have ref: "\<And>i. i < length [(\<lambda>c. Inr 1) :: frame] \<Longrightarrow>
      ([(\<lambda>c. Inr 1) :: frame] ! i) 0 = Inr ((\<lambda>i. 1) i) \<and> (\<lambda>i. 1 :: real) i \<noteq> 0"
    by simp
  note T = loop_fault_handling[where N = 2 and f_init = "\<lambda>c. Inr 1" and vs = "\<lambda>i c. 1"
      and pfs = "[\<lambda>c. Inr 1]" and ms = "\<lambda>i. 1" and f = "\<lambda>c. Inr 0" and v = 0
      and d = "''dev''" and u = "''id''" and fs = "[]", OF init reads ref]
  have T': "(\<forall>g gs st e st'. poll_iteration ''dev'' ''id'' 2 g st = Raise e st' \<longrightarrow>
            poll_loop ''dev'' ''id'' 2 (g # gs) st =
              (if e = ValueError \<or> e = NameError \<or> e = SyntaxError then Break st'
               else Propagate e st')) \<and>
         fst (session ''dev'' ''id'' 2 (\<lambda>c. Inr 1) ([\<lambda>c. Inr 1] @ (\<lambda>c. Inr 0) # []))
           = Uncaught ZeroDivisionError"
    by (rule T) simp_all
  have a: "poll_iteration ''dev'' ''id'' 2 (\<lambda>c. Inl ValueError) initial_state
      = Raise ValueError (initial_state\<lparr>stdout := header_lines ''dev'' ''id''\<rparr>)"
    by (simp add: poll_iteration_def initial_state_def)
  have b: "poll_iteration ''dev'' ''id'' 2 (\<lambda>c. Inl KeyboardInterrupt) initial_state
      = Raise KeyboardInterrupt (initial_state\<lparr>stdout := header_lines ''dev'' ''id''\<rparr>)"
    by (simp add: poll_iteration_def initial_state_def)
  from T'[THEN conjunct1, rule_format, OF a, of "[]"] T'[THEN conjunct1, rule_format, OF b, of "[]"]
    T'[THEN conjunct2]
  show ?thesis by simp
qed

subsection \<open>C6: the accumulator is a running total\<close>



subsection \<open>C7: the previous voltage and the other channels\<close>

text \<open>
  C7. An update of channel \<open>c\<close> leaves the previous voltage and the accumulator of every
  other channel as they were, whatever the reference, the tolerance (hence whichever
  of the three branches is taken) and the outcome; an update that runs to its end has
  stored the sample as the previous voltage of \<open>c\<close>; and an update of a channel of the
  arrays with a nonzero reference does run to its end.
\<close>

theorem previous_voltage_frame:
  "(\<forall>x. x \<noteq> c \<longrightarrow>
      data_vol_pre (state_of (channel_update m t c v st)) ! x = data_vol_pre st ! x \<and>
      data_vol_incr (state_of (channel_update m t c v st)) ! x = data_vol_incr st ! x) \<and>
   (\<forall>st'. channel_update m t c v st = Ok st' \<longrightarrow> data_vol_pre st' ! c = v) \<and>
   (c < length (data_vol_pre st) \<and> c < length (data_vol_incr st) \<and> m \<noteq> 0 \<longrightarrow>
      (\<exists>st'. channel_update m t c v st = Ok st'))"
  by (auto simp: channel_update_def Let_def split: if_splits)

theorem previous_voltage_frame_witness:
  "(\<exists>st'. channel_update 5 (5 * tolerance_ratio) 1 0.1
        (initial_state\<lparr>data_vol_pre := [5, 4.8, 2, 0, 0, 0, 0, 0],
                        data_vol_incr := [0, 1, 3, 0, 0, 0, 0, 0]\<rparr>) = Ok st' \<and>
      data_vol_pre st' ! 1 = 0.1 \<and> data_vol_pre st' ! 2 = 2 \<and> data_vol_incr st' ! 2 = 3)"
proof -
  let ?st = "initial_state\<lparr>data_vol_pre := [5, 4.8, 2, 0, 0, 0, 0, 0],
                        data_vol_incr := [0, 1, 3, 0, 0, 0, 0, 0]\<rparr>"
  note T = previous_voltage_frame[where c = 1 and m = 5 and t = "5 * tolerance_ratio"
      and v = "0.1" and st = ?st]
  from T obtain st' where ok: "channel_update 5 (5 * tolerance_ratio) 1 0.1 ?st = Ok st'"
    by (auto simp: initial_state_def)
  from T ok have a: "data_vol_pre st' ! 1 = 0.1" by auto
  from T[THEN conjunct1, rule_format, of 2] ok
  have b: "data_vol_pre st' ! 2 = 2 \<and> data_vol_incr st' ! 2 = 3"
    by (simp add: initial_state_def)
  from ok a b show ?thesis by blast
qed

subsection \<open>C8: the lines of one iteration\<close>




subsection \<open>C9: channel 0 is the reference only\<close>

text \<open>
  C9. Channel 0 is read as the reference and never updated. The accumulator of channel
  0 is \<open>0\<close> after the initialisation; the polling loop, whatever the device delivers
  and however the loop ends, leaves the accumulator and the previous voltage of
  channel 0 as they were; so at the end of the session the accumulator of channel 0 is
  \<open>0\<close>, its previous voltage is the one the initialisation left, and no line
  \<open>Channel(0) Data: ...\<close> is on the terminal.
\<close>

theorem reference_channel_untouched:
  "data_vol_incr (state_of (init_channels f_init (all_channels N) initial_state)) ! 0 = 0 \<and>
   data_vol_incr (loop_state (poll_loop d u N fs st)) ! 0 = data_vol_incr st ! 0 \<and>
   data_vol_pre (loop_state (poll_loop d u N fs st)) ! 0 = data_vol_pre st ! 0 \<and>
   data_vol_incr (snd (session d u N f_init fs)) ! 0 = 0 \<and>
   data_vol_pre (snd (session d u N f_init fs)) ! 0
     = data_vol_pre (state_of (init_channels f_init (all_channels N) initial_state)) ! 0 \<and>
   (\<forall>y. channel_line 0 y \<notin> set (stdout (snd (session d u N f_init fs))))"
proof -
  have a: "data_vol_incr (state_of (init_channels f_init (all_channels N) initial_state)) ! 0 = 0"
    using init_channels_any[of f_init "all_channels N" initial_state] initial_incr_zero[of 0]
    by simp
  have b: "data_vol_incr (loop_state (poll_loop d u N fs st)) ! 0 = data_vol_incr st ! 0"
    "data_vol_pre (loop_state (poll_loop d u N fs st)) ! 0 = data_vol_pre st ! 0"
    using poll_loop_any[of d u N fs st] zero_not_data_channel[of N] by simp_all
  note S = session_any[of d u N f_init fs]
  have c: "\<forall>y. channel_line 0 y \<notin> set (stdout (snd (session d u N f_init fs)))"
  proof (intro allI notI)
    fix y
    assume "channel_line 0 y \<in> set (stdout (snd (session d u N f_init fs)))"
    with S have "channel_line 0 y \<in> set (header_lines d u) \<or>
        (\<exists>c x. c \<in> set (data_channels N) \<and> channel_line 0 y = channel_line c x) \<or>
        channel_line 0 y = '''' \<or> (\<exists>msg. channel_line 0 y = '' '' @ msg)"
      by auto
    then show False
      using channel_line_not_header[of 0 y d u] channel_line_zero_neq[of _ N y]
        channel_line_not_error[of 0 y]
      by blast
  qed
  from a b S c show ?thesis by blast
qed

subsection \<open>C10: the accumulator and the raw difference\<close>

text \<open>
  C10. One update adds the delta plus \<open>k\<close> times the reference, with \<open>k\<close> one of
  \<open>-1\<close>, \<open>0\<close> and \<open>1\<close>. Hence, when every iteration reads the same nonzero reference,
  the accumulator of a data channel differs from the current voltage minus the first
  voltage by an integer multiple of the reference.
\<close>

theorem increments_multiple_of_reference:
  assumes init: "\<And>x. x \<in> set (all_channels N) \<Longrightarrow> f_init x = Inr (vs 0 x)"
    and reads: "\<And>i x. i < length fs \<Longrightarrow> x \<in> set (data_channels N) \<Longrightarrow> (fs ! i) x = Inr (vs (Suc i) x)"
    and ref: "\<And>i. i < length fs \<Longrightarrow> (fs ! i) 0 = Inr m"
    and m: "m \<noteq> 0"
    and c: "c \<in> set (data_channels N)"
  shows "(\<forall>st x v r. x < length (data_vol_pre st) \<and> x < length (data_vol_incr st) \<longrightarrow>
           (\<exists>k::int. (k = - 1 \<or> k = 0 \<or> k = 1) \<and>
              data_vol_incr (state_of (channel_update r (r * tolerance_ratio) x v st)) ! x =
                data_vol_incr st ! x + (v - data_vol_pre st ! x + of_int k * r))) \<and>
         (\<exists>st'. session d u N f_init fs = (Still_polling, st') \<and>
            data_vol_pre st' ! c = vs (length fs) c \<and>
            (\<exists>k::int. data_vol_incr st' ! c = vs (length fs) c - vs 0 c + of_int k * m))"
proof (intro conjI allI impI)
  fix st :: state and x :: nat and v r :: real
  assume x: "x < length (data_vol_pre st) \<and> x < length (data_vol_incr st)"
  have eq: "data_vol_incr (state_of (channel_update r (r * tolerance_ratio) x v st)) ! x =
      data_vol_incr st ! x + spec_increment r (v - data_vol_pre st ! x)"
    using x by (simp add: channel_update_def tolerance_ratio_def spec_increment_def Let_def)
  obtain k :: int where "k = - 1 \<or> k = 0 \<or> k = 1"
    "spec_increment r (v - data_vol_pre st ! x) = v - data_vol_pre st ! x + of_int k * r"
    using spec_increment_multiple[of r "v - data_vol_pre st ! x"] by blast
  then show "\<exists>k::int. (k = - 1 \<or> k = 0 \<or> k = 1) \<and>
              data_vol_incr (state_of (channel_update r (r * tolerance_ratio) x v st)) ! x =
                data_vol_incr st ! x + (v - data_vol_pre st ! x + of_int k * r)"
    using eq by auto
next
  have ref': "\<And>i. i < length fs \<Longrightarrow> (fs ! i) 0 = Inr ((\<lambda>_. m) i) \<and> (\<lambda>_. m) i \<noteq> 0"
    using ref m by simp
  from session_Still_polling[where N = N and f_init = f_init and vs = vs and fs = fs and ms = "\<lambda>_. m"
      and d = d and u = u, OF init reads ref']
  obtain st' where st': "session d u N f_init fs = (Still_polling, st')"
    "\<And>x. x \<in> set (data_channels N) \<Longrightarrow> data_vol_pre st' ! x = vs (length fs) x"
    "\<And>x. x \<in> set (data_channels N) \<Longrightarrow>
        data_vol_incr st' ! x = (\<Sum>i<length fs. spec_increment m (vs (Suc i) x - vs i x))"
    by blast
  obtain k :: int where "(\<Sum>i<length fs. spec_increment m (vs (Suc i) c - vs i c))
      = (\<Sum>i<length fs. vs (Suc i) c - vs i c) + of_int k * m"
    using sum_spec_increment_multiple[where n = "length fs" and m = m and f = "\<lambda>i. vs (Suc i) c - vs i c"] by blast
  then have "data_vol_incr st' ! c = vs (length fs) c - vs 0 c + of_int k * m"
    using st'(3)[OF c] sum_lessThan_telescope[of "\<lambda>i. vs i c" "length fs"] by simp
  then show "\<exists>st'. session d u N f_init fs = (Still_polling, st') \<and>
            data_vol_pre st' ! c = vs (length fs) c \<and>
            (\<exists>k::int. data_vol_incr st' ! c = vs (length fs) c - vs 0 c + of_int k * m)"
    using st'(1) st'(2)[OF c] by blast
qed

theorem increments_multiple_of_reference_witness:
  "(\<exists>k::int. (k = - 1 \<or> k = 0 \<or> k = 1) \<and>
      data_vol_incr (state_of (channel_update 5 (5 * tolerance_ratio) 1 0.1
          (initial_state\<lparr>data_vol_pre := [5, 4.8, 0, 0, 0, 0, 0, 0]\<rparr>))) ! 1 =
        data_vol_incr (initial_state\<lparr>data_vol_pre := [5, 4.8, 0, 0, 0, 0, 0, 0]\<rparr>) ! 1 +
          (0.1 - data_vol_pre (initial_state\<lparr>data_vol_pre := [5, 4.8, 0, 0, 0, 0, 0, 0]\<rparr>) ! 1
             + of_int k * 5)) \<and>
   (\<exists>st'. session ''dev'' ''id'' 2 (\<lambda>c. Inr 4.8)
        [\<lambda>c. Inr (if c = 0 then 5 else 0.1), \<lambda>c. Inr (if c = 0 then 5 else 0.3)]
        = (Still_polling, st') \<and>
      data_vol_pre st' ! 1 = 0.3 \<and>
      (\<exists>k::int. data_vol_incr st' ! 1 = 0.3 - 4.8 + of_int k * 5))"
proof -
  let ?fs = "[\<lambda>c. Inr (if c = 0 then 5 else 0.1), \<lambda>c. Inr (if c = 0 then 5 else 0.3)] :: frame list"
  let ?vs = "\<lambda>i (x::nat). [4.8, 0.1, 0.3 :: real] ! i"
  let ?st = "initial_state\<lparr>data_vol_pre := [5, 4.8, 0, 0, 0, 0, 0, 0]\<rparr>"
  have dc: "data_channels 2 = [1]"
    by (simp add: range_py_def low_channel_def high_channel_def upto_rec1)
  have init: "\<And>x. (\<lambda>c. Inr 4.8) x = (Inr (?vs 0 x) :: exn + real)"
    by simp
  have reads: "\<And>i x. i < length ?fs \<Longrightarrow> x \<in> set (data_channels 2) \<Longrightarrow>
      (?fs ! i) x = Inr (?vs (Suc i) x)"
    by (auto simp: dc less_Suc_eq numeral_2_eq_2)
  have ref: "\<And>i. i < length ?fs \<Longrightarrow> (?fs ! i) 0 = Inr 5"
    by (auto simp: less_Suc_eq numeral_2_eq_2)
  have m: "(5::real) \<noteq> 0" by simp
  have c: "1 \<in> set (data_channels 2)" by (simp add: dc)
  note T = increments_multiple_of_reference[where N = 2 and f_init = "\<lambda>c. Inr 4.8"
      and vs = ?vs and fs = ?fs and m = 5 and c = 1 and d = "''dev''" and u = "''id''",
      OF init reads ref m c]
  have A: "\<exists>k::int. (k = - 1 \<or> k = 0 \<or> k = 1) \<and>
      data_vol_incr (state_of (channel_update 5 (5 * tolerance_ratio) 1 0.1 ?st)) ! 1 =
        data_vol_incr ?st ! 1 + (0.1 - data_vol_pre ?st ! 1 + of_int k * 5)"
    using T[THEN conjunct1, rule_format, where x = 1 and st = ?st and v = "0.1" and r = 5]
    by (simp add: initial_state_def)
  from T[THEN conjunct2] have B: "\<exists>st'. session ''dev'' ''id'' 2 (\<lambda>c. Inr 4.8) ?fs = (Still_polling, st') \<and>
      data_vol_pre st' ! 1 = 0.3 \<and>
      (\<exists>k::int. data_vol_incr st' ! 1 = 0.3 - 4.8 + of_int k * 5)"
    by (simp add: numeral_2_eq_2)
  from A B show ?thesis by blast
qed

end
